theory Spec2Isabelle
  imports Main "HOL-Library.AList"
begin

section \<open>The NRF registry (class NRFRegistry)\<close>

text \<open>
  The registry keeps its profiles in a JavaScript \<open>Map\<close> from instance id to profile.
  A \<open>Map\<close> iterates in insertion order, \<open>set\<close> on a present key replaces the value in
  place and \<open>set\<close> on a new key appends: this is \<open>AList.update\<close> on an association list,
  \<open>get\<close> is \<open>map_of\<close> and \<open>delete\<close> is \<open>AList.delete\<close>.

  Times are the milliseconds \<open>Date.now()\<close> returns, as integers. Every operation takes the
  clock reading \<open>now\<close> of its call as a parameter; the clock does not advance within one call.
  Writes to the console, the log engine, the canvas and the \<open>nrfStatus\<close> mirror kept on the
  user interface's NF objects are not part of the registry's state and are left out.
\<close>

type_synonym timestamp = int

datatype nf_status = REGISTERED | UNAVAILABLE | REMOVED

record service =
  serviceName :: string
  serviceInstanceId :: string

text \<open>
  The argument \<open>nfProfile\<close> of \<open>registerNF\<close>: the fields the connection manager supplies
  (\<open>nfType\<close>, \<open>nfName\<close>, \<open>ipAddress\<close>, \<open>port\<close>, \<open>httpProtocol\<close>, \<open>services\<close>) and the optional
  \<open>priority\<close>, \<open>capacity\<close> and \<open>load\<close> that \<open>registerNF\<close> reads. \<open>None\<close> is an absent field.
\<close>

record nf_profile_input =
  in_nfType :: string
  in_nfName :: "string option"
  in_ipAddress :: "string option"
  in_port :: "int option"
  in_httpProtocol :: "string option"
  in_services :: "service list option"
  in_priority :: "int option"
  in_capacity :: "int option"
  in_load :: "int option"

record nf_profile =
  nfInstanceId :: string
  nfType :: string
  nfName :: string
  nfStatus :: nf_status
  heartBeatTimer :: int
  registeredAt :: timestamp
  lastHeartbeat :: timestamp
  statusChangedAt :: timestamp
  deregisteredAt :: "timestamp option"
  deregistrationReason :: "string option"
  ipAddress :: "string option"
  port :: "int option"
  httpProtocol :: "string option"
  services :: "service list option"
  priority :: "int option"
  capacity :: "int option"
  load :: "int option"

record registration_request =
  req_nfInstanceId :: string
  req_nfType :: string
  req_nfStatus :: nf_status
  req_ipv4Addresses :: "string list"
  req_allowedNfTypes :: "string list"
  req_priority :: int
  req_capacity :: int
  req_load :: int
  req_nfProfileChangesSupportInd :: bool

record registration_response =
  resp_nfInstanceId :: string
  resp_nfType :: string
  resp_nfStatus :: nf_status
  resp_heartBeatTimer :: int
  resp_nfProfileChangesInd :: bool

record registration_record =
  reg_nfInstanceId :: string
  reg_nfType :: string
  reg_nfName :: string
  reg_timestamp :: timestamp
  reg_request :: registration_request
  reg_response :: registration_response

record deregistration_request =
  dreq_nfInstanceId :: string
  dreq_nfType :: string
  dreq_action :: string
  dreq_reason :: string
  dreq_timestamp :: timestamp

record deregistration_response =
  dresp_nfInstanceId :: string
  dresp_nfType :: string
  dresp_nfStatus :: nf_status
  dresp_result :: string
  dresp_deregisteredAt :: timestamp

record deregistration_record =
  dereg_nfInstanceId :: string
  dereg_nfType :: string
  dereg_nfName :: string
  dereg_timestamp :: timestamp
  dereg_request :: deregistration_request
  dereg_response :: deregistration_response

text \<open>
  The value \<open>registerNF\<close> returns.
\<close>

record register_result =
  res_nfInstanceId :: string
  res_nfStatus :: nf_status
  res_validity :: int
  res_heartbeatTimer :: int

text \<open>
  The state of one \<open>NRFRegistry\<close> object. \<open>purgeTimeouts\<close> holds the callbacks that
  \<open>deregisterNF\<close> has handed to \<open>setTimeout\<close> and that have not run yet, each with the time
  it is due and the id it will delete from \<open>registry\<close>.
\<close>

record nrf_registry =
  registry :: "(string \<times> nf_profile) list"
  registrationMessages :: "(string \<times> registration_record) list"
  registrationHistory :: "registration_record list"
  deregistrationMessages :: "(string \<times> deregistration_record) list"
  deregistrationHistory :: "deregistration_record list"
  heartbeatInterval :: int
  heartbeatTimeout :: int
  gracePeriod :: int
  purgeTimeouts :: "(timestamp \<times> string) list"

definition new_NRFRegistry :: nrf_registry where
  "new_NRFRegistry =
     \<lparr> registry = [], registrationMessages = [], registrationHistory = [],
       deregistrationMessages = [], deregistrationHistory = [],
       heartbeatInterval = 60000, heartbeatTimeout = 120000, gracePeriod = 30000,
       purgeTimeouts = [] \<rparr>"

subsection \<open>registerNF\<close>

text \<open>\<open>s.slice(-n)\<close>: the last \<open>n\<close> characters, the whole string when it is shorter.\<close>

definition slice_last :: "nat \<Rightarrow> string \<Rightarrow> string" where
  "slice_last n s = drop (length s - n) s"

text \<open>\<open>a || b\<close> on strings: the empty string and an absent value are falsy.\<close>

definition truthy_string :: "string option \<Rightarrow> bool" where
  "truthy_string v = (case v of None \<Rightarrow> False | Some s \<Rightarrow> s \<noteq> [])"

definition getAllowedNfTypes :: "string \<Rightarrow> string list" where
  "getAllowedNfTypes t =
     (case map_of
        [(''AMF'', [''SMF'']),
         (''SMF'', [''AMF'']),
         (''AUSF'', [''AMF'']),
         (''UDM'', [''AMF'', ''SMF'', ''AUSF'']),
         (''UDR'', [''PCF'', ''UDM'']),
         (''PCF'', [''AMF'', ''SMF'', ''NEF'', ''AF'']),
         (''NSSF'', [''AMF'']),
         (''UPF'', []),
         (''gNB'', []),
         (''UE'', []),
         (''MySQL'', []),
         (''ext-dn'', [])] t of
       None \<Rightarrow> []
     | Some ts \<Rightarrow> ts)"

text \<open>
  The object literal of \<open>registerNF\<close> before the spread: the defaults, with
  \<open>registeredAt: existingProfile?.registeredAt || now\<close> (a stored \<open>0\<close> is falsy).
\<close>

definition default_profile ::
  "timestamp \<Rightarrow> nrf_registry \<Rightarrow> string \<Rightarrow> nf_profile_input \<Rightarrow> nf_profile option \<Rightarrow> nf_profile"
where
  "default_profile now r nfInstanceId' nfProfile existingProfile =
     \<lparr> nfInstanceId = nfInstanceId',
       nfType = in_nfType nfProfile,
       nfName = (if truthy_string (in_nfName nfProfile) then the (in_nfName nfProfile)
                 else in_nfType nfProfile @ ''-'' @ slice_last 6 nfInstanceId'),
       nfStatus = REGISTERED,
       heartBeatTimer = heartbeatInterval r,
       registeredAt = (case existingProfile of
                         None \<Rightarrow> now
                       | Some e \<Rightarrow> if registeredAt e = 0 then now else registeredAt e),
       lastHeartbeat = now,
       statusChangedAt = now,
       deregisteredAt = None,
       deregistrationReason = None,
       ipAddress = None, port = None, httpProtocol = None, services = None,
       priority = None, capacity = None, load = None \<rparr>"

text \<open>
  \<open>...nfProfile\<close>: every field the argument has replaces the field of the same name.
\<close>

definition spread_nfProfile :: "nf_profile_input \<Rightarrow> nf_profile \<Rightarrow> nf_profile" where
  "spread_nfProfile nfProfile p =
     p \<lparr> nfType := in_nfType nfProfile,
         nfName := (case in_nfName nfProfile of None \<Rightarrow> nfName p | Some n \<Rightarrow> n),
         ipAddress := in_ipAddress nfProfile,
         port := in_port nfProfile,
         httpProtocol := in_httpProtocol nfProfile,
         services := in_services nfProfile,
         priority := in_priority nfProfile,
         capacity := in_capacity nfProfile,
         load := in_load nfProfile \<rparr>"

text \<open>
  The request and response kept for display. The request's \<open>nfServices\<close> list
  (\<open>buildNfServices\<close>, with freshly generated service ids) is display data that no
  operation reads back; it is not part of the record here. \<open>heartbeatInterval / 1000\<close> is
  exact for the configured 60000.
\<close>

definition registration_record_of ::
  "timestamp \<Rightarrow> nrf_registry \<Rightarrow> string \<Rightarrow> nf_profile_input \<Rightarrow> nf_profile \<Rightarrow> registration_record"
where
  "registration_record_of now r nfInstanceId' nfProfile profile =
     \<lparr> reg_nfInstanceId = nfInstanceId',
       reg_nfType = in_nfType nfProfile,
       reg_nfName = nfName profile,
       reg_timestamp = now,
       reg_request =
         \<lparr> req_nfInstanceId = nfInstanceId',
           req_nfType = in_nfType nfProfile,
           req_nfStatus = REGISTERED,
           req_ipv4Addresses =
             (if truthy_string (in_ipAddress nfProfile) then [the (in_ipAddress nfProfile)]
              else []),
           req_allowedNfTypes = getAllowedNfTypes (in_nfType nfProfile),
           req_priority = (case in_priority nfProfile of None \<Rightarrow> 0 | Some v \<Rightarrow> v),
           req_capacity = (case in_capacity nfProfile of None \<Rightarrow> 100 | Some v \<Rightarrow> v),
           req_load = (case in_load nfProfile of None \<Rightarrow> 0 | Some v \<Rightarrow> v),
           req_nfProfileChangesSupportInd = True \<rparr>,
       reg_response =
         \<lparr> resp_nfInstanceId = nfInstanceId',
           resp_nfType = in_nfType nfProfile,
           resp_nfStatus = REGISTERED,
           resp_heartBeatTimer = heartbeatInterval r div 1000,
           resp_nfProfileChangesInd = True \<rparr> \<rparr>"

definition registerNF ::
  "timestamp \<Rightarrow> string \<Rightarrow> nf_profile_input \<Rightarrow> nrf_registry \<Rightarrow> register_result \<times> nrf_registry"
where
  "registerNF now nfInstanceId' nfProfile r =
     (let existingProfile = map_of (registry r) nfInstanceId';
          profile = spread_nfProfile nfProfile
                      (default_profile now r nfInstanceId' nfProfile existingProfile);
          registrationRecord = registration_record_of now r nfInstanceId' nfProfile profile
      in (\<lparr> res_nfInstanceId = nfInstanceId',
            res_nfStatus = REGISTERED,
            res_validity = 3600,
            res_heartbeatTimer = heartbeatInterval r \<rparr>,
          r \<lparr> registry := AList.update nfInstanceId' profile (registry r),
              registrationMessages :=
                AList.update nfInstanceId' registrationRecord (registrationMessages r),
              registrationHistory := registrationHistory r @ [registrationRecord] \<rparr>))"

subsection \<open>updateHeartbeat\<close>

text \<open>
  The profile object found by \<open>registry.get\<close> is changed in place; in the association
  list that is the replacement of the value stored under the id.
\<close>

definition updateHeartbeat :: "timestamp \<Rightarrow> string \<Rightarrow> nrf_registry \<Rightarrow> bool \<times> nrf_registry" where
  "updateHeartbeat now nfInstanceId' r =
     (case map_of (registry r) nfInstanceId' of
        None \<Rightarrow> (False, r)
      | Some profile \<Rightarrow>
          (let profile1 = profile \<lparr> lastHeartbeat := now \<rparr>;
               profile2 = (if nfStatus profile1 = UNAVAILABLE
                           then profile1 \<lparr> nfStatus := REGISTERED, statusChangedAt := now \<rparr>
                           else profile1)
           in (True, r \<lparr> registry := AList.update nfInstanceId' profile2 (registry r) \<rparr>)))"

subsection \<open>discoverNFs\<close>

record discovery_query =
  q_nfType :: "string option"
  q_service :: "string option"

definition hasService :: "string \<Rightarrow> service list \<Rightarrow> bool" where
  "hasService s svcs =
     list_ex (\<lambda>svc. serviceInstanceId svc = s \<or> serviceName svc = s) svcs"

text \<open>
  The body of the \<open>forEach\<close> callback up to the \<open>push\<close>: \<open>False\<close> is an early \<open>return\<close>.
  \<open>query.nfType && ...\<close> and \<open>query.service && profile.services\<close> are JavaScript
  truthiness tests: an absent or empty string is falsy, any array is truthy.
\<close>

definition discover_match :: "discovery_query \<Rightarrow> nf_profile \<Rightarrow> bool" where
  "discover_match query profile =
     (if nfStatus profile \<noteq> REGISTERED then False
      else if truthy_string (q_nfType query) \<and> Some (nfType profile) \<noteq> q_nfType query
        then False
      else if truthy_string (q_service query) \<and> services profile \<noteq> None
        then (if \<not> hasService (the (q_service query)) (the (services profile))
              then False else True)
      else True)"

text \<open>
  The pushed object \<open>{nfInstanceId: ..., nfType: ..., nfName: ..., nfStatus: ..., ...profile}\<close>
  is a copy of the profile with the same fields.
\<close>

definition discoverNFs :: "discovery_query \<Rightarrow> nrf_registry \<Rightarrow> nf_profile list" where
  "discoverNFs query r =
     foldl (\<lambda>results (nfInstanceId', profile).
              if discover_match query profile then results @ [profile] else results)
       [] (registry r)"

subsection \<open>deregisterNF and the delayed removal\<close>

text \<open>
  The recurring notice that \<open>startDeregisteredNFMonitoring\<close> starts for a deregistered
  instance only writes to the log engine; neither it nor its timer handle is modelled.
\<close>

definition deregistration_record_of ::
  "timestamp \<Rightarrow> string \<Rightarrow> string \<Rightarrow> nf_profile \<Rightarrow> deregistration_record"
where
  "deregistration_record_of now nfInstanceId' reason profile =
     \<lparr> dereg_nfInstanceId = nfInstanceId',
       dereg_nfType = nfType profile,
       dereg_nfName = nfName profile,
       dereg_timestamp = now,
       dereg_request =
         \<lparr> dreq_nfInstanceId = nfInstanceId',
           dreq_nfType = nfType profile,
           dreq_action = ''DEREGISTER'',
           dreq_reason = reason,
           dreq_timestamp = now \<rparr>,
       dereg_response =
         \<lparr> dresp_nfInstanceId = nfInstanceId',
           dresp_nfType = nfType profile,
           dresp_nfStatus = REMOVED,
           dresp_result = ''DEREGISTERED'',
           dresp_deregisteredAt = now \<rparr> \<rparr>"

definition deregisterNF :: "timestamp \<Rightarrow> string \<Rightarrow> string \<Rightarrow> nrf_registry \<Rightarrow> nrf_registry" where
  "deregisterNF now nfInstanceId' reason r =
     (case map_of (registry r) nfInstanceId' of
        None \<Rightarrow> r
      | Some profile \<Rightarrow>
          (let profile' = profile \<lparr> nfStatus := REMOVED,
                                    statusChangedAt := now,
                                    deregisteredAt := Some now,
                                    deregistrationReason := Some reason \<rparr>;
               deregRecord = deregistration_record_of now nfInstanceId' reason profile'
           in r \<lparr> registry := AList.update nfInstanceId' profile' (registry r),
                  deregistrationMessages :=
                    AList.update nfInstanceId' deregRecord (deregistrationMessages r),
                  deregistrationHistory := deregistrationHistory r @ [deregRecord],
                  purgeTimeouts := purgeTimeouts r @ [(now + 5000, nfInstanceId')] \<rparr>))"

text \<open>
  The callback of \<open>setTimeout(..., 5000)\<close> in \<open>deregisterNF\<close>, run for one pending entry:
  \<open>this.registry.delete(nfInstanceId)\<close>.
\<close>

definition runPurgeTimeout :: "timestamp \<times> string \<Rightarrow> nrf_registry \<Rightarrow> nrf_registry" where
  "runPurgeTimeout t r =
     (if t \<in> set (purgeTimeouts r)
      then r \<lparr> registry := AList.delete (snd t) (registry r),
               purgeTimeouts := remove1 t (purgeTimeouts r) \<rparr>
      else r)"

subsection \<open>checkHeartbeatTimeouts\<close>

text \<open>\<open>profile.lastHeartbeat || profile.registeredAt\<close>: a stored \<open>0\<close> is falsy.\<close>

definition lastHeartbeat_or_registeredAt :: "nf_profile \<Rightarrow> timestamp" where
  "lastHeartbeat_or_registeredAt profile =
     (if lastHeartbeat profile = 0 then registeredAt profile else lastHeartbeat profile)"

text \<open>
  One call of the \<open>forEach\<close> callback of \<open>checkHeartbeatTimeouts\<close>: the profile as the
  callback leaves it, and whether its id was pushed onto \<open>toRemove\<close>.
\<close>

definition sweep_visit :: "timestamp \<Rightarrow> nrf_registry \<Rightarrow> nf_profile \<Rightarrow> nf_profile \<times> bool" where
  "sweep_visit now r profile =
     (let timeSinceHeartbeat = now - lastHeartbeat_or_registeredAt profile
      in if timeSinceHeartbeat > heartbeatTimeout r
         then (if nfStatus profile = REGISTERED
               then (profile \<lparr> nfStatus := UNAVAILABLE, statusChangedAt := now \<rparr>, False)
               else if nfStatus profile = UNAVAILABLE
               then (let timeSinceUnavailable = now - statusChangedAt profile
                     in if timeSinceUnavailable > gracePeriod r then (profile, True)
                        else (profile, False))
               else (profile, False))
         else (profile, False))"

text \<open>
  The scan: every entry of the map is visited once, in order, and its profile object is
  changed in place; the ids marked for removal are collected in visiting order.
\<close>

definition sweep_scan :: "timestamp \<Rightarrow> nrf_registry \<Rightarrow> (string \<times> nf_profile) list" where
  "sweep_scan now r =
     map (\<lambda>(nfInstanceId', profile). (nfInstanceId', fst (sweep_visit now r profile)))
       (registry r)"

definition sweep_toRemove :: "timestamp \<Rightarrow> nrf_registry \<Rightarrow> string list" where
  "sweep_toRemove now r =
     map fst (filter (\<lambda>(nfInstanceId', profile). snd (sweep_visit now r profile)) (registry r))"

definition checkHeartbeatTimeouts :: "timestamp \<Rightarrow> nrf_registry \<Rightarrow> nrf_registry" where
  "checkHeartbeatTimeouts now r =
     foldl (\<lambda>r' nfInstanceId'. deregisterNF now nfInstanceId' ''AUTOMATIC_HEARTBEAT_TIMEOUT'' r')
       (r \<lparr> registry := sweep_scan now r \<rparr>)
       (sweep_toRemove now r)"


section \<open>The connection manager (class ConnectionManager)\<close>

subsection \<open>Connectivity policy\<close>

text \<open>
  The tables below are object literals looked up by type name. Type names are the tags of
  the instances; a name that every JavaScript object inherits as a property (such as
  \<open>constructor\<close>) is not among them, and a lookup of a name that is not a key of the
  literal gives \<open>undefined\<close> (\<open>None\<close>).

  \<open>initializeValidConnections\<close>:
\<close>

definition validConnections :: "string \<Rightarrow> string list option" where
  "validConnections =
     map_of
       [(''NRF'', [''AMF'', ''SMF'', ''UPF'', ''AUSF'', ''UDM'', ''PCF'', ''NSSF'', ''UDR'']),
        (''AMF'', [''NRF'', ''SMF'', ''AUSF'', ''UDM'', ''PCF'', ''NSSF'', ''gNB'', ''UE'']),
        (''SMF'', [''NRF'', ''AMF'', ''UPF'', ''PCF'', ''UDM'', ''UDR'']),
        (''UPF'', [''NRF'', ''SMF'', ''gNB'']),
        (''AUSF'', [''NRF'', ''AMF'', ''UDM'']),
        (''UDM'', [''NRF'', ''AMF'', ''SMF'', ''AUSF'', ''PCF'', ''UDR'']),
        (''PCF'', [''NRF'', ''AMF'', ''SMF'', ''UDM'']),
        (''NSSF'', [''NRF'', ''AMF'']),
        (''UDR'', [''NRF'', ''SMF'', ''UDM'', ''MySQL'']),
        (''gNB'', [''AMF'', ''UPF'', ''UE'']),
        (''UE'', [''gNB'', ''AMF'']),
        (''MySQL'', [''UDR'']),
        (''ext-dn'', [''UPF''])]"

definition isConnectionValid :: "string \<Rightarrow> string \<Rightarrow> bool" where
  "isConnectionValid sourceType targetType =
     (case validConnections sourceType of
        None \<Rightarrow> False
      | Some targets \<Rightarrow>
          if targetType \<in> set targets then True
          else (case validConnections targetType of
                  None \<Rightarrow> False
                | Some sources \<Rightarrow> if sourceType \<in> set sources then True else False))"

definition interfaces :: "string \<Rightarrow> string option" where
  "interfaces =
     map_of
       [(''AMF-NRF'', ''Nnrf_NFManagement''),
        (''SMF-NRF'', ''Nnrf_NFDiscovery''),
        (''UPF-NRF'', ''Nnrf_NFManagement''),
        (''AUSF-NRF'', ''Nnrf_NFManagement''),
        (''UDM-NRF'', ''Nnrf_NFManagement''),
        (''PCF-NRF'', ''Nnrf_NFManagement''),
        (''NSSF-NRF'', ''Nnrf_NFManagement''),
        (''UDR-NRF'', ''Nnrf_NFManagement''),
        (''AMF-SMF'', ''Namf_Communication''),
        (''AMF-AUSF'', ''Nausf_UEAuthentication''),
        (''AMF-UDM'', ''Nudm_UECM''),
        (''AMF-PCF'', ''Npcf_AMPolicyControl''),
        (''AMF-NSSF'', ''Nnssf_NSSelection''),
        (''AMF-UE'', ''N1''),
        (''SMF-UPF'', ''N4''),
        (''SMF-PCF'', ''Npcf_SMPolicyControl''),
        (''SMF-UDM'', ''Nudm_SDM''),
        (''SMF-UDR'', ''Nudr_EventExposure''),
        (''AUSF-UDM'', ''Nudm_Authentication''),
        (''PCF-UDM'', ''Nudm_PolicyControl''),
        (''gNB-AMF'', ''N2''),
        (''gNB-UPF'', ''N3''),
        (''gNB-UE'', ''Radio''),
        (''UE-gNB'', ''Radio''),
        (''UE-AMF'', ''N1''),
        (''UDM-UDR'', ''Nudr_DataRepository''),
        (''UDR-UDM'', ''Nudr_DataRepository''),
        (''UDR-MySQL'', ''SQL/REST API''),
        (''MySQL-UDR'', ''SQL/REST API''),
        (''UPF-ext-dn'', ''N6''),
        (''ext-dn-UPF'', ''N6'')]"

definition getInterfaceName :: "string \<Rightarrow> string \<Rightarrow> string" where
  "getInterfaceName sourceType targetType =
     (case interfaces (sourceType @ ''-'' @ targetType) of
        Some n \<Rightarrow> n
      | None \<Rightarrow>
          (case interfaces (targetType @ ''-'' @ sourceType) of
             Some n \<Rightarrow> n
           | None \<Rightarrow> ''SBI''))"

text \<open>
  \<open>ip.split('.')\<close>: the pieces between the dots; a string without a dot is one piece,
  the empty string gives one empty piece.
\<close>

fun split_dot :: "string \<Rightarrow> string list" where
  "split_dot [] = [[]]"
| "split_dot (c # cs) =
     (if c = CHR ''.'' then [] # split_dot cs
      else (c # hd (split_dot cs)) # tl (split_dot cs))"

text \<open>
  \<open>`${parts[i]}`\<close>: an index past the end reads \<open>undefined\<close>, which the template
  literal prints as the word.
\<close>

definition template_part :: "string list \<Rightarrow> nat \<Rightarrow> string" where
  "template_part parts i = (if i < length parts then parts ! i else ''undefined'')"

definition getNetworkFromIP :: "string \<Rightarrow> string" where
  "getNetworkFromIP ip =
     (let parts = split_dot ip
      in template_part parts 0 @ ''.'' @ template_part parts 1 @ ''.'' @ template_part parts 2)"

definition areIPsInSameSubnet :: "string \<Rightarrow> string \<Rightarrow> bool" where
  "areIPsInSameSubnet ip1 ip2 = (getNetworkFromIP ip1 = getNetworkFromIP ip2)"

definition getServicesForNF :: "string \<Rightarrow> service list" where
  "getServicesForNF t =
     (case map_of
        [(''AMF'',
            [\<lparr> serviceName = ''namf-comm'', serviceInstanceId = ''namf-comm-v1'' \<rparr>,
             \<lparr> serviceName = ''namf-evts'', serviceInstanceId = ''namf-evts-v1'' \<rparr>]),
         (''SMF'',
            [\<lparr> serviceName = ''nsmf-pdusession'', serviceInstanceId = ''nsmf-pdusession-v1'' \<rparr>,
             \<lparr> serviceName = ''nsmf-event-exposure'',
               serviceInstanceId = ''nsmf-event-exposure-v1'' \<rparr>]),
         (''UPF'',
            [\<lparr> serviceName = ''nupf-pfcp'', serviceInstanceId = ''nupf-pfcp-v1'' \<rparr>]),
         (''AUSF'',
            [\<lparr> serviceName = ''nausf-auth'', serviceInstanceId = ''nausf-auth-v1'' \<rparr>]),
         (''UDM'',
            [\<lparr> serviceName = ''nudm-sdm'', serviceInstanceId = ''nudm-sdm-v1'' \<rparr>,
             \<lparr> serviceName = ''nudm-uecm'', serviceInstanceId = ''nudm-uecm-v1'' \<rparr>,
             \<lparr> serviceName = ''nudm-ueau'', serviceInstanceId = ''nudm-ueau-v1'' \<rparr>]),
         (''PCF'',
            [\<lparr> serviceName = ''npcf-am-policy-control'',
               serviceInstanceId = ''npcf-am-policy-control-v1'' \<rparr>,
             \<lparr> serviceName = ''npcf-smpolicycontrol'',
               serviceInstanceId = ''npcf-smpolicycontrol-v1'' \<rparr>]),
         (''NSSF'',
            [\<lparr> serviceName = ''nnssf-nsselection'',
               serviceInstanceId = ''nnssf-nsselection-v1'' \<rparr>]),
         (''UDR'',
            [\<lparr> serviceName = ''nudr-dr'', serviceInstanceId = ''nudr-dr-v1'' \<rparr>]),
         (''NRF'',
            [\<lparr> serviceName = ''nnrf-nfm'', serviceInstanceId = ''nnrf-nfm-v1'' \<rparr>,
             \<lparr> serviceName = ''nnrf-disc'', serviceInstanceId = ''nnrf-disc-v1'' \<rparr>])] t of
       None \<Rightarrow> []
     | Some svcs \<Rightarrow> svcs)"


subsection \<open>Instances, links and the data store\<close>

text \<open>
  The \<open>tun0\<close> interface that \<open>createConnection\<close> writes into a UPF's configuration. A field
  the code tests with \<open>!x\<close> before filling it in is optional here, \<open>None\<close> for absent.
\<close>

record tun0_interface =
  tun_name :: "string option"
  tun_ipAddress :: "string option"
  tun_netmask :: "string option"
  tun_network :: "string option"
  tun_gatewayIP :: "string option"
  tun_assignedIPs :: "string list option"
  tun_nextAvailableIP :: "nat option"
  tun_createdAt :: "timestamp option"

record nf_config =
  cfg_ipAddress :: string
  cfg_port :: "int option"
  cfg_httpProtocol :: "string option"
  cfg_tun0Interface :: "tun0_interface option"

text \<open>
  A timer id as \<open>setInterval\<close> returns it: a positive number, so a stored id is truthy.
\<close>

datatype interval_id = IntervalId nat

record nf =
  nf_id :: string
  nf_name :: string
  nf_type :: string
  nf_config :: nf_config
  heartbeatIntervalId :: "interval_id option"

record connection =
  conn_id :: string
  sourceId :: string
  targetId :: string
  interfaceName :: string
  protocol :: string
  conn_status :: string
  createdAt :: timestamp
  isManual :: bool
  showVisual :: bool

text \<open>
  Modelled from the spec: the external inventory of instances and links
  (\<open>window.dataStore\<close>), whose class is not among the sources. It holds the instances and the
  links in the order they were added; an instance or a link is looked up by its own id,
  \<open>updateNF\<close> changes the instance with the given id, \<open>removeConnection\<close> drops the link with
  the given id, and \<open>getConnectionsForNF\<close> gives the links that have the instance at either
  end.
\<close>

record data_store =
  nfs :: "nf list"
  connections :: "connection list"

definition getNFById :: "data_store \<Rightarrow> string \<Rightarrow> nf option" where
  "getNFById ds i = find (\<lambda>n. nf_id n = i) (nfs ds)"

definition updateNF :: "string \<Rightarrow> (nf \<Rightarrow> nf) \<Rightarrow> data_store \<Rightarrow> data_store" where
  "updateNF i f ds = ds \<lparr> nfs := map (\<lambda>n. if nf_id n = i then f n else n) (nfs ds) \<rparr>"

definition addConnection :: "connection \<Rightarrow> data_store \<Rightarrow> data_store" where
  "addConnection c ds = ds \<lparr> connections := connections ds @ [c] \<rparr>"

definition getConnectionById :: "data_store \<Rightarrow> string \<Rightarrow> connection option" where
  "getConnectionById ds i = find (\<lambda>c. conn_id c = i) (connections ds)"

definition removeConnection :: "string \<Rightarrow> data_store \<Rightarrow> data_store" where
  "removeConnection i ds = ds \<lparr> connections := filter (\<lambda>c. conn_id c \<noteq> i) (connections ds) \<rparr>"

definition getConnectionsForNF :: "data_store \<Rightarrow> string \<Rightarrow> connection list" where
  "getConnectionsForNF ds i =
     filter (\<lambda>c. sourceId c = i \<or> targetId c = i) (connections ds)"

text \<open>
  What the connection manager works on: the data store, \<open>window.nrfRegistry\<close> (which may be
  unset), \<open>window.globalHTTPProtocol\<close>, the registration callbacks that \<open>createConnection\<close>
  has handed to \<open>setTimeout\<close> and that have not run yet (each with the time it is due and
  the instance object it captured), and the number of the next timer id.
\<close>

record world =
  dataStore :: data_store
  nrfRegistry :: "nrf_registry option"
  globalHTTPProtocol :: "string option"
  registrationTimeouts :: "(timestamp \<times> nf) list"
  nextIntervalId :: nat

subsection \<open>Heartbeats of an instance\<close>

text \<open>
  \<open>connections.find(conn => ...)\<close> of \<open>startNFHeartbeat\<close>: whether the instance has a link
  whose other end is present and is an NRF.
\<close>

definition hasNRFConnection :: "data_store \<Rightarrow> string \<Rightarrow> bool" where
  "hasNRFConnection ds nfId =
     list_ex (\<lambda>conn.
        case getNFById ds (if sourceId conn = nfId then targetId conn else sourceId conn) of
          None \<Rightarrow> False
        | Some otherNF \<Rightarrow> nf_type otherNF = ''NRF'')
       (getConnectionsForNF ds nfId)"

definition startNFHeartbeat :: "timestamp \<Rightarrow> string \<Rightarrow> world \<Rightarrow> world" where
  "startNFHeartbeat now nfId w =
     (case getNFById (dataStore w) nfId of
        None \<Rightarrow> w
      | Some n \<Rightarrow>
          if nf_type n = ''NRF'' then w
          else if heartbeatIntervalId n \<noteq> None then w
          else if \<not> hasNRFConnection (dataStore w) nfId then w
          else
            (let w1 = w \<lparr> dataStore :=
                          updateNF nfId
                            (\<lambda>n'. n' \<lparr> heartbeatIntervalId := Some (IntervalId (nextIntervalId w)) \<rparr>)
                            (dataStore w),
                        nextIntervalId := Suc (nextIntervalId w) \<rparr>
             in case nrfRegistry w1 of
                  None \<Rightarrow> w1
                | Some r \<Rightarrow> w1 \<lparr> nrfRegistry := Some (snd (updateHeartbeat now nfId r)) \<rparr>))"

text \<open>
  One run of the callback that \<open>startNFHeartbeat\<close> gave to \<open>setInterval\<close>: it stops itself
  when the instance is gone, and sends a heartbeat otherwise.
\<close>

definition runHeartbeatInterval :: "timestamp \<Rightarrow> string \<Rightarrow> world \<Rightarrow> world" where
  "runHeartbeatInterval now nfId w =
     (case getNFById (dataStore w) nfId of
        None \<Rightarrow> w
      | Some currentNF \<Rightarrow>
          (case nrfRegistry w of
             None \<Rightarrow> w
           | Some r \<Rightarrow> w \<lparr> nrfRegistry := Some (snd (updateHeartbeat now nfId r)) \<rparr>))"

definition stopNFHeartbeat :: "string \<Rightarrow> world \<Rightarrow> world" where
  "stopNFHeartbeat nfId w =
     (case getNFById (dataStore w) nfId of
        None \<Rightarrow> w
      | Some n \<Rightarrow>
          if heartbeatIntervalId n \<noteq> None
          then w \<lparr> dataStore :=
                     updateNF nfId (\<lambda>n'. n' \<lparr> heartbeatIntervalId := None \<rparr>) (dataStore w) \<rparr>
          else w)"

subsection \<open>createConnection\<close>

text \<open>
  The four ways \<open>createConnection\<close> returns \<open>null\<close>, told apart by the message it shows:
  \<open>Invalid NF IDs\<close>, \<open>Cannot connect an NF to itself\<close>, the subnet restriction (with both
  networks) and the invalid connection (with both types).
\<close>

datatype rejection =
    InvalidNFIds
  | SelfConnection
  | SubnetRestriction string string
  | InvalidConnection string string

text \<open>
  The profile the registration callback builds from the instance it captured.
\<close>

definition nfProfile_of :: "nf \<Rightarrow> nf_profile_input" where
  "nfProfile_of n =
     \<lparr> in_nfType = nf_type n,
       in_nfName = Some (nf_name n),
       in_ipAddress = Some (cfg_ipAddress (nf_config n)),
       in_port = cfg_port (nf_config n),
       in_httpProtocol =
         Some (if truthy_string (cfg_httpProtocol (nf_config n))
               then the (cfg_httpProtocol (nf_config n)) else ''HTTP/2''),
       in_services = Some (getServicesForNF (nf_type n)),
       in_priority = None, in_capacity = None, in_load = None \<rparr>"

text \<open>
  The \<open>tun0\<close> block of \<open>createConnection\<close>, applied to the UPF of a link between a UPF and
  an \<open>ext-dn\<close>.
\<close>

definition ensure_tun0 :: "timestamp \<Rightarrow> nf \<Rightarrow> nf" where
  "ensure_tun0 now upf =
     upf \<lparr> nf_config := (nf_config upf) \<lparr> cfg_tun0Interface :=
       (case cfg_tun0Interface (nf_config upf) of
          None \<Rightarrow>
            Some \<lparr> tun_name = Some ''tun0'',
                   tun_ipAddress = Some ''10.0.0.1'',
                   tun_netmask = Some ''255.255.255.0'',
                   tun_network = Some ''10.0.0.0/24'',
                   tun_gatewayIP = Some ''10.0.0.1'',
                   tun_assignedIPs = Some [],
                   tun_nextAvailableIP = Some 2,
                   tun_createdAt = Some now \<rparr>
        | Some t \<Rightarrow>
            Some (t \<lparr> tun_assignedIPs :=
                        (if tun_assignedIPs t = None then Some [] else tun_assignedIPs t),
                      tun_nextAvailableIP :=
                        (if tun_nextAvailableIP t = None \<or> tun_nextAvailableIP t = Some 0
                         then Some 2 else tun_nextAvailableIP t),
                      tun_name :=
                        (if truthy_string (tun_name t) then tun_name t else Some ''tun0''),
                      tun_ipAddress :=
                        (if truthy_string (tun_ipAddress t) then tun_ipAddress t
                         else Some ''10.0.0.1''),
                      tun_netmask :=
                        (if truthy_string (tun_netmask t) then tun_netmask t
                         else Some ''255.255.255.0'') \<rparr>)) \<rparr> \<rparr>"

text \<open>
  The connection object \<open>createConnection\<close> builds, with the id that
  \<open>generateConnectionId\<close> produces (from the clock and a random number) as the parameter
  \<open>connectionId\<close>, and \<open>window.globalHTTPProtocol || 'HTTP/2'\<close> as the protocol.
\<close>

definition new_connection ::
  "timestamp \<Rightarrow> string \<Rightarrow> string \<Rightarrow> string \<Rightarrow> bool \<Rightarrow> world \<Rightarrow> nf \<Rightarrow> nf \<Rightarrow> connection"
where
  "new_connection now connectionId sourceId' targetId' isManual' w sourceNF targetNF =
     \<lparr> conn_id = connectionId,
       sourceId = sourceId',
       targetId = targetId',
       interfaceName = getInterfaceName (nf_type sourceNF) (nf_type targetNF),
       protocol = (if truthy_string (globalHTTPProtocol w)
                   then the (globalHTTPProtocol w) else ''HTTP/2''),
       conn_status = ''connected'',
       createdAt = now,
       isManual = isManual',
       showVisual = True \<rparr>"

text \<open>
  \<open>createConnection\<close>. The result is the message of the rejection (\<open>Inl\<close>, where the code
  returns \<open>null\<close>) or the link (\<open>Inr\<close>). The NAS signalling of a link between a UE and an
  AMF only writes to the log engine and is left out.
\<close>

definition createConnection ::
  "timestamp \<Rightarrow> string \<Rightarrow> string \<Rightarrow> string \<Rightarrow> bool \<Rightarrow> world \<Rightarrow> (rejection + connection) \<times> world"
where
  "createConnection now connectionId sourceId' targetId' isManual' w =
     (case (getNFById (dataStore w) sourceId', getNFById (dataStore w) targetId') of
        (None, _) \<Rightarrow> (Inl InvalidNFIds, w)
      | (_, None) \<Rightarrow> (Inl InvalidNFIds, w)
      | (Some sourceNF, Some targetNF) \<Rightarrow>
          if sourceId' = targetId' then (Inl SelfConnection, w)
          else
            (let sourceNetwork = getNetworkFromIP (cfg_ipAddress (nf_config sourceNF));
                 targetNetwork = getNetworkFromIP (cfg_ipAddress (nf_config targetNF))
             in if sourceNetwork \<noteq> targetNetwork
                then (Inl (SubnetRestriction sourceNetwork targetNetwork), w)
                else if \<not> isConnectionValid (nf_type sourceNF) (nf_type targetNF)
                then (Inl (InvalidConnection (nf_type sourceNF) (nf_type targetNF)), w)
                else
                  (let connection' = new_connection now connectionId sourceId' targetId'
                                       isManual' w sourceNF targetNF;
                       w1 = w \<lparr> dataStore := addConnection connection' (dataStore w) \<rparr>;
                       w2 = (if nf_type targetNF = ''NRF'' \<and> nf_type sourceNF \<noteq> ''NRF''
                             then w1 \<lparr> registrationTimeouts :=
                                         registrationTimeouts w1 @ [(now + 1500, sourceNF)] \<rparr>
                             else if nf_type sourceNF = ''NRF'' \<and> nf_type targetNF \<noteq> ''NRF''
                             then w1 \<lparr> registrationTimeouts :=
                                         registrationTimeouts w1 @ [(now + 1500, targetNF)] \<rparr>
                             else w1);
                       w3 = (if (nf_type sourceNF = ''UPF'' \<and> nf_type targetNF = ''ext-dn'') \<or>
                                (nf_type sourceNF = ''ext-dn'' \<and> nf_type targetNF = ''UPF'')
                             then (let upf = (if nf_type sourceNF = ''UPF'' then sourceNF
                                              else targetNF)
                                   in w2 \<lparr> dataStore :=
                                            updateNF (nf_id upf) (ensure_tun0 now) (dataStore w2) \<rparr>)
                             else w2)
                   in (Inr connection', w3))))"

text \<open>
  One run of a registration callback of \<open>createConnection\<close>, \<open>n\<close> being the instance it
  captured: with a registry present it registers the instance and starts its heartbeat.
\<close>

definition runRegistrationTimeout :: "timestamp \<Rightarrow> timestamp \<times> nf \<Rightarrow> world \<Rightarrow> world" where
  "runRegistrationTimeout now t w =
     (if t \<in> set (registrationTimeouts w)
      then (let w1 = w \<lparr> registrationTimeouts := remove1 t (registrationTimeouts w) \<rparr>
            in case nrfRegistry w1 of
                 None \<Rightarrow> w1
               | Some r \<Rightarrow>
                   startNFHeartbeat now (nf_id (snd t))
                     (w1 \<lparr> nrfRegistry :=
                            Some (snd (registerNF now (nf_id (snd t)) (nfProfile_of (snd t)) r)) \<rparr>))
      else w)"

subsection \<open>deleteConnection\<close>

definition deleteConnection :: "timestamp \<Rightarrow> string \<Rightarrow> world \<Rightarrow> world" where
  "deleteConnection now connectionId w =
     (case getConnectionById (dataStore w) connectionId of
        None \<Rightarrow> w
      | Some connection' \<Rightarrow>
          (let deregister = (\<lambda>nfId w'.
                 stopNFHeartbeat nfId
                   (case nrfRegistry w' of
                      None \<Rightarrow> w'
                    | Some r \<Rightarrow>
                        w' \<lparr> nrfRegistry :=
                               Some (deregisterNF now nfId ''NRF_CONNECTION_REMOVED'' r) \<rparr>));
               w1 = (case (getNFById (dataStore w) (sourceId connection'),
                           getNFById (dataStore w) (targetId connection')) of
                       (Some sourceNF, Some targetNF) \<Rightarrow>
                         if nf_type targetNF = ''NRF'' \<and> nf_type sourceNF \<noteq> ''NRF''
                         then deregister (nf_id sourceNF) w
                         else if nf_type sourceNF = ''NRF'' \<and> nf_type targetNF \<noteq> ''NRF''
                         then deregister (nf_id targetNF) w
                         else w
                     | _ \<Rightarrow> w)
           in w1 \<lparr> dataStore := removeConnection connectionId (dataStore w1) \<rparr>))"

section \<open>Sequences of registry operations\<close>

text \<open>
  The calls that reach a registry, one constructor per entry point: \<open>registerNF\<close>,
  \<open>updateHeartbeat\<close>, \<open>deregisterNF\<close>, one pass of \<open>checkHeartbeatTimeouts\<close>, and the run
  of a pending removal callback. A sequence pairs each call with the clock reading at
  which it happens.
\<close>

datatype registry_op =
    Register string nf_profile_input
  | RenewHeartbeat string
  | Deregister string string
  | Sweep
  | Purge "timestamp \<times> string"

fun apply_op :: "timestamp \<Rightarrow> registry_op \<Rightarrow> nrf_registry \<Rightarrow> nrf_registry" where
  "apply_op now (Register i nfProfile) r = snd (registerNF now i nfProfile r)"
| "apply_op now (RenewHeartbeat i) r = snd (updateHeartbeat now i r)"
| "apply_op now (Deregister i reason) r = deregisterNF now i reason r"
| "apply_op now Sweep r = checkHeartbeatTimeouts now r"
| "apply_op now (Purge t) r = runPurgeTimeout t r"

fun run_ops :: "(timestamp \<times> registry_op) list \<Rightarrow> nrf_registry \<Rightarrow> nrf_registry" where
  "run_ops [] r = r"
| "run_ops ((now, opn) # ops) r = run_ops ops (apply_op now opn r)"

fun registers :: "string \<Rightarrow> registry_op \<Rightarrow> bool" where
  "registers i (Register j nfProfile) = (j = i)"
| "registers i opn = False"

text \<open>
  The profile as \<open>deregisterNF\<close> leaves it.
\<close>

definition deregistered :: "timestamp \<Rightarrow> string \<Rightarrow> nf_profile \<Rightarrow> nf_profile" where
  "deregistered now reason profile =
     profile \<lparr> nfStatus := REMOVED, statusChangedAt := now,
               deregisteredAt := Some now, deregistrationReason := Some reason \<rparr>"

text \<open>
  The moves of a profile's status as the specification words them: along
  \<open>REGISTERED \<rightarrow> UNAVAILABLE \<rightarrow> REMOVED\<close>, or \<open>UNAVAILABLE \<rightarrow> REGISTERED\<close>.
\<close>

definition spec_status_move :: "nf_status \<Rightarrow> nf_status \<Rightarrow> bool" where
  "spec_status_move s s' =
     (s' = s \<or> (s = REGISTERED \<and> s' = UNAVAILABLE) \<or> (s = UNAVAILABLE \<and> s' = REMOVED) \<or>
      (s = UNAVAILABLE \<and> s' = REGISTERED))"

text \<open>
  The moves each operation makes on the status of the profile stored under \<open>i\<close>.
\<close>

fun op_status_move :: "registry_op \<Rightarrow> string \<Rightarrow> nf_status \<Rightarrow> nf_status \<Rightarrow> bool" where
  "op_status_move (Register j nfProfile) i s s' = (if j = i then s' = REGISTERED else s' = s)"
| "op_status_move (RenewHeartbeat j) i s s' =
     (if j = i \<and> s = UNAVAILABLE then s' = REGISTERED else s' = s)"
| "op_status_move (Deregister j reason) i s s' = (if j = i then s' = REMOVED else s' = s)"
| "op_status_move Sweep i s s' =
     (s' = s \<or> (s = REGISTERED \<and> s' = UNAVAILABLE) \<or> (s = UNAVAILABLE \<and> s' = REMOVED))"
| "op_status_move (Purge t) i s s' = (s' = s)"

text \<open>
  The first three dot-separated pieces of an address: the subnet prefix in the
  specification's words.
\<close>

definition first_three_octets :: "string \<Rightarrow> string list" where
  "first_three_octets ip = take 3 (split_dot ip)"

text \<open>
  A sequence of operations whose clock readings are all positive, as \<open>Date.now()\<close> is.
\<close>

definition positive_clock :: "(timestamp \<times> registry_op) list \<Rightarrow> bool" where
  "positive_clock ops = list_all (\<lambda>x. 0 < fst x) ops"

text \<open>
  What holds of every registry that the operations produce from a fresh one: each id has
  one entry, the grace period is not negative, every stored time of registration and of
  the last heartbeat is a clock reading, and a profile that is \<open>UNAVAILABLE\<close> was made so
  by a sweep that found its heartbeat timed out.
\<close>

definition registry_inv :: "nrf_registry \<Rightarrow> bool" where
  "registry_inv r \<longleftrightarrow>
     distinct (map fst (registry r)) \<and> 0 \<le> gracePeriod r \<and>
     (\<forall>i p. map_of (registry r) i = Some p \<longrightarrow>
        lastHeartbeat p \<noteq> 0 \<and> registeredAt p \<noteq> 0 \<and>
        (nfStatus p = UNAVAILABLE \<longrightarrow>
           lastHeartbeat p + heartbeatTimeout r < statusChangedAt p))"

section \<open>Example states\<close>

definition amf_profile_input :: nf_profile_input where
  "amf_profile_input =
     \<lparr> in_nfType = ''AMF'', in_nfName = Some ''AMF-1'',
       in_ipAddress = Some ''192.168.1.5'', in_port = Some 8080,
       in_httpProtocol = Some ''HTTP/2'',
       in_services = Some (getServicesForNF ''AMF''),
       in_priority = None, in_capacity = None, in_load = None \<rparr>"

definition smf_profile_input :: nf_profile_input where
  "smf_profile_input =
     \<lparr> in_nfType = ''SMF'', in_nfName = None,
       in_ipAddress = Some ''192.168.1.6'', in_port = None,
       in_httpProtocol = Some ''HTTP/2'',
       in_services = Some (getServicesForNF ''SMF''),
       in_priority = None, in_capacity = None, in_load = None \<rparr>"

text \<open>A registry with \<open>amf-1\<close> registered at time 1000 and \<open>smf-1\<close> at time 2000.\<close>

definition registry_amf :: nrf_registry where
  "registry_amf = snd (registerNF 1000 ''amf-1'' amf_profile_input new_NRFRegistry)"

definition registry_amf_smf :: nrf_registry where
  "registry_amf_smf = snd (registerNF 2000 ''smf-1'' smf_profile_input registry_amf)"

text \<open>The profile that the first registration of \<open>amf-1\<close> stores.\<close>

definition profile_amf :: nf_profile where
  "profile_amf =
     spread_nfProfile amf_profile_input
       (default_profile 1000 new_NRFRegistry ''amf-1'' amf_profile_input None)"

text \<open>
  The same registry after a sweep at time 130000, which finds the heartbeat of \<open>amf-1\<close>
  timed out, and after a manual deregistration at time 3000.
\<close>

definition registry_unavailable :: nrf_registry where
  "registry_unavailable = checkHeartbeatTimeouts 130000 registry_amf"

definition profile_unavailable :: nf_profile where
  "profile_unavailable = profile_amf \<lparr> nfStatus := UNAVAILABLE, statusChangedAt := 130000 \<rparr>"

definition registry_removed :: nrf_registry where
  "registry_removed = deregisterNF 3000 ''amf-1'' ''MANUAL'' registry_amf"

text \<open>
  A topology with the registry node \<open>nrf-1\<close> and the instance \<open>amf-1\<close> on the subnet
  \<open>192.168.1\<close> and the instance \<open>smf-1\<close> on the subnet \<open>10.0.0\<close>, no links, and an empty
  registry installed.
\<close>

definition nrf_nf :: nf where
  "nrf_nf =
     \<lparr> nf_id = ''nrf-1'', nf_name = ''NRF-1'', nf_type = ''NRF'',
       nf_config = \<lparr> cfg_ipAddress = ''192.168.1.2'', cfg_port = Some 8080,
                     cfg_httpProtocol = Some ''HTTP/2'', cfg_tun0Interface = None \<rparr>,
       heartbeatIntervalId = None \<rparr>"

definition amf_nf :: nf where
  "amf_nf =
     \<lparr> nf_id = ''amf-1'', nf_name = ''AMF-1'', nf_type = ''AMF'',
       nf_config = \<lparr> cfg_ipAddress = ''192.168.1.5'', cfg_port = Some 8080,
                     cfg_httpProtocol = Some ''HTTP/2'', cfg_tun0Interface = None \<rparr>,
       heartbeatIntervalId = None \<rparr>"

definition smf_nf :: nf where
  "smf_nf =
     \<lparr> nf_id = ''smf-1'', nf_name = ''SMF-1'', nf_type = ''SMF'',
       nf_config = \<lparr> cfg_ipAddress = ''10.0.0.9'', cfg_port = Some 8080,
                     cfg_httpProtocol = Some ''HTTP/2'', cfg_tun0Interface = None \<rparr>,
       heartbeatIntervalId = None \<rparr>"

definition lab_world :: world where
  "lab_world =
     \<lparr> dataStore = \<lparr> nfs = [nrf_nf, amf_nf, smf_nf], connections = [] \<rparr>,
       nrfRegistry = Some new_NRFRegistry,
       globalHTTPProtocol = None,
       registrationTimeouts = [],
       nextIntervalId = 1 \<rparr>"





section \<open>Discovery\<close>

lemma discoverNFs_foldl:
  "foldl (\<lambda>results (i, profile).
            if discover_match query profile then results @ [profile] else results) acc es
   = acc @ map snd (filter (\<lambda>(i, profile). discover_match query profile) es)"
  by (induction es arbitrary: acc) (auto split: prod.splits)

lemma discoverNFs_filter:
  "discoverNFs query r =
     map snd (filter (\<lambda>(i, profile). discover_match query profile) (registry r))"
  by (simp add: discoverNFs_def discoverNFs_foldl)

lemma discover_match_type_only:
  "T \<noteq> [] \<Longrightarrow> discover_match \<lparr> q_nfType = Some T, q_service = None \<rparr> p
     = (nfStatus p = REGISTERED \<and> nfType p = T)"
  by (auto simp: discover_match_def truthy_string_def)

section \<open>Heartbeats, deregistration and the sweep on one profile\<close>

lemma updateHeartbeat_unknown:
  "map_of (registry r) i = None \<Longrightarrow> updateHeartbeat now i r = (False, r)"
  by (simp add: updateHeartbeat_def)

lemma updateHeartbeat_known:
  "map_of (registry r) i = Some p \<Longrightarrow>
   updateHeartbeat now i r =
     (True, r \<lparr> registry := AList.update i
        (if nfStatus p = UNAVAILABLE
         then p \<lparr> lastHeartbeat := now, nfStatus := REGISTERED, statusChangedAt := now \<rparr>
         else p \<lparr> lastHeartbeat := now \<rparr>) (registry r) \<rparr>)"
  by (simp add: updateHeartbeat_def Let_def)

lemma map_of_updateHeartbeat:
  "map_of (registry (snd (updateHeartbeat now j r))) i =
     (if i = j
      then map_option (\<lambda>p. if nfStatus p = UNAVAILABLE
              then p \<lparr> lastHeartbeat := now, nfStatus := REGISTERED, statusChangedAt := now \<rparr>
              else p \<lparr> lastHeartbeat := now \<rparr>) (map_of (registry r) i)
      else map_of (registry r) i)"
  by (cases "map_of (registry r) j")
     (simp_all add: updateHeartbeat_unknown updateHeartbeat_known AList.update_conv')

lemma deregisterNF_unknown:
  "map_of (registry r) i = None \<Longrightarrow> deregisterNF now i reason r = r"
  by (simp add: deregisterNF_def)

lemma deregisterNF_known:
  "map_of (registry r) i = Some p \<Longrightarrow>
   deregisterNF now i reason r =
     r \<lparr> registry := AList.update i (deregistered now reason p) (registry r),
         deregistrationMessages :=
           AList.update i (deregistration_record_of now i reason (deregistered now reason p))
             (deregistrationMessages r),
         deregistrationHistory :=
           deregistrationHistory r @
             [deregistration_record_of now i reason (deregistered now reason p)],
         purgeTimeouts := purgeTimeouts r @ [(now + 5000, i)] \<rparr>"
  by (simp add: deregisterNF_def Let_def deregistered_def)

lemma map_of_deregisterNF:
  "map_of (registry (deregisterNF now j reason r)) i =
     (if i = j then map_option (deregistered now reason) (map_of (registry r) i)
      else map_of (registry r) i)"
  by (cases "map_of (registry r) j")
     (simp_all add: deregisterNF_unknown deregisterNF_known AList.update_conv')

lemma deregistered_idem [simp]:
  "deregistered now reason (deregistered now reason p) = deregistered now reason p"
  by (simp add: deregistered_def)

lemma map_of_foldl_deregisterNF:
  "map_of (registry (foldl (\<lambda>r' j. deregisterNF now j reason r') r js)) i =
     (if i \<in> set js then map_option (deregistered now reason) (map_of (registry r) i)
      else map_of (registry r) i)"
proof (induction js arbitrary: r)
  case Nil
  then show ?case by simp
next
  case (Cons j js)
  show ?case
    by (simp add: Cons.IH map_of_deregisterNF option.map_comp comp_def)
qed

lemma config_deregisterNF:
  "heartbeatTimeout (deregisterNF now j reason r) = heartbeatTimeout r \<and>
   gracePeriod (deregisterNF now j reason r) = gracePeriod r \<and>
   heartbeatInterval (deregisterNF now j reason r) = heartbeatInterval r"
  by (cases "map_of (registry r) j") (simp_all add: deregisterNF_unknown deregisterNF_known)

lemma map_of_sweep_scan:
  "map_of (sweep_scan now r) i = map_option (\<lambda>p. fst (sweep_visit now r p)) (map_of (registry r) i)"
proof -
  have "sweep_scan now r = map (\<lambda>(k, p). (k, fst (sweep_visit now r p))) (registry r)"
    by (simp add: sweep_scan_def)
  then show ?thesis
    by (simp add: map_of_map comp_def)
qed

lemma keys_sweep_scan: "map fst (sweep_scan now r) = map fst (registry r)"
  by (simp add: sweep_scan_def comp_def case_prod_beta)

lemma in_sweep_toRemove:
  assumes "distinct (map fst (registry r))"
  shows "i \<in> set (sweep_toRemove now r) \<longleftrightarrow>
           (\<exists>p. map_of (registry r) i = Some p \<and> snd (sweep_visit now r p))"
  using assms by (auto simp: sweep_toRemove_def image_iff)

lemma sweep_visit_marked:
  "snd (sweep_visit now r p) \<Longrightarrow> fst (sweep_visit now r p) = p \<and> nfStatus p = UNAVAILABLE"
  by (simp add: sweep_visit_def Let_def split: if_splits)

lemma map_of_checkHeartbeatTimeouts:
  assumes "distinct (map fst (registry r))"
  shows "map_of (registry (checkHeartbeatTimeouts now r)) i =
           map_option (\<lambda>p. if snd (sweep_visit now r p)
                            then deregistered now ''AUTOMATIC_HEARTBEAT_TIMEOUT'' p
                            else fst (sweep_visit now r p))
             (map_of (registry r) i)"
proof (cases "map_of (registry r) i")
  case None
  then show ?thesis
    by (simp add: checkHeartbeatTimeouts_def map_of_foldl_deregisterNF map_of_sweep_scan)
next
  case (Some p)
  then show ?thesis
    using in_sweep_toRemove [OF assms, of i now] sweep_visit_marked [of now r p]
    by (auto simp add: checkHeartbeatTimeouts_def map_of_foldl_deregisterNF map_of_sweep_scan)
qed

section \<open>Registration\<close>

lemma registerNF_registry:
  "registry (snd (registerNF now i inp r)) =
     AList.update i (spread_nfProfile inp (default_profile now r i inp (map_of (registry r) i)))
       (registry r)"
  by (simp add: registerNF_def Let_def)

lemma map_of_registerNF:
  "map_of (registry (snd (registerNF now j inp r))) i =
     (if i = j
      then Some (spread_nfProfile inp (default_profile now r j inp (map_of (registry r) j)))
      else map_of (registry r) i)"
  by (simp add: registerNF_registry AList.update_conv')

lemma nfStatus_registered_profile [simp]:
  "nfStatus (spread_nfProfile inp (default_profile now r i inp e)) = REGISTERED"
  by (simp add: spread_nfProfile_def default_profile_def)

lemma one_entry_per_key:
  "distinct (map fst xs) \<Longrightarrow> map_of xs i = Some v \<Longrightarrow> length (filter (\<lambda>e. fst e = i) xs) = 1"
proof (induction xs)
  case Nil
  then show ?case by simp
next
  case (Cons x xs)
  show ?case
  proof (cases "fst x = i")
    case True
    with Cons.prems have "i \<notin> fst ` set xs" by auto
    then have "filter (\<lambda>e. fst e = i) xs = []"
      by (auto simp: filter_empty_conv)
    with True show ?thesis by simp
  next
    case False
    with Cons show ?thesis by (cases x) (auto split: if_splits)
  qed
qed

section \<open>One operation on a registry\<close>

lemma keys_deregisterNF:
  "map fst (registry (deregisterNF now j reason r)) = map fst (registry r)"
proof (cases "map_of (registry r) j")
  case None
  then show ?thesis by (simp add: deregisterNF_unknown)
next
  case (Some p)
  then have "j \<in> set (map fst (registry r))"
    by (metis map_of_eq_None_iff option.distinct(1) set_map)
  with Some show ?thesis by (simp add: deregisterNF_known AList.update_keys)
qed

lemma keys_foldl_deregisterNF:
  "map fst (registry (foldl (\<lambda>r' j. deregisterNF now j reason r') r js)) = map fst (registry r)"
  by (induction js arbitrary: r) (simp_all add: keys_deregisterNF)

lemma keys_checkHeartbeatTimeouts:
  "map fst (registry (checkHeartbeatTimeouts now r)) = map fst (registry r)"
  by (simp add: checkHeartbeatTimeouts_def keys_foldl_deregisterNF keys_sweep_scan)

lemma keys_updateHeartbeat:
  "map fst (registry (snd (updateHeartbeat now j r))) = map fst (registry r)"
proof (cases "map_of (registry r) j")
  case None
  then show ?thesis by (simp add: updateHeartbeat_unknown)
next
  case (Some p)
  then have "j \<in> set (map fst (registry r))"
    by (metis map_of_eq_None_iff option.distinct(1) set_map)
  with Some show ?thesis by (simp add: updateHeartbeat_known AList.update_keys)
qed

lemma map_of_runPurgeTimeout:
  "map_of (registry (runPurgeTimeout t r)) i =
     (if t \<in> set (purgeTimeouts r) \<and> i = snd t then None else map_of (registry r) i)"
  by (simp add: runPurgeTimeout_def AList.delete_conv')

lemma distinct_apply_op:
  "distinct (map fst (registry r)) \<Longrightarrow> distinct (map fst (registry (apply_op now opn r)))"
proof (cases opn)
  case (Register j inp)
  assume "distinct (map fst (registry r))"
  then show ?thesis
    by (simp add: Register registerNF_registry AList.distinct_update)
next
  case (RenewHeartbeat j)
  assume "distinct (map fst (registry r))"
  then show ?thesis by (simp add: RenewHeartbeat keys_updateHeartbeat)
next
  case (Deregister j reason)
  assume "distinct (map fst (registry r))"
  then show ?thesis by (simp add: Deregister keys_deregisterNF)
next
  case Sweep
  assume "distinct (map fst (registry r))"
  then show ?thesis by (simp add: Sweep keys_checkHeartbeatTimeouts)
next
  case (Purge t)
  assume "distinct (map fst (registry r))"
  then show ?thesis
    by (simp add: Purge runPurgeTimeout_def AList.distinct_delete)
qed

lemma sweep_visit_status:
  "nfStatus (fst (sweep_visit now r p)) = nfStatus p \<or>
   (nfStatus p = REGISTERED \<and> nfStatus (fst (sweep_visit now r p)) = UNAVAILABLE)"
  by (simp add: sweep_visit_def Let_def)

lemma apply_op_status:
  assumes "distinct (map fst (registry r))"
    and "map_of (registry r) i = Some p"
    and "map_of (registry (apply_op now opn r)) i = Some p'"
  shows "op_status_move opn i (nfStatus p) (nfStatus p')"
proof (cases opn)
  case (Register j inp)
  with assms(2,3) show ?thesis
    by (auto simp: map_of_registerNF split: if_splits)
next
  case (RenewHeartbeat j)
  with assms(2,3) show ?thesis
    by (auto simp: map_of_updateHeartbeat split: if_splits)
next
  case (Deregister j reason)
  with assms(2,3) show ?thesis
    by (auto simp: map_of_deregisterNF deregistered_def split: if_splits)
next
  case Sweep
  with assms(2,3) have "p' = (if snd (sweep_visit now r p)
                            then deregistered now ''AUTOMATIC_HEARTBEAT_TIMEOUT'' p
                            else fst (sweep_visit now r p))"
    by (simp add: map_of_checkHeartbeatTimeouts [OF assms(1)])
  with Sweep sweep_visit_marked [of now r p] sweep_visit_status [of now r p] show ?thesis
    by (auto simp: deregistered_def split: if_splits)
next
  case (Purge t)
  with assms(2,3) show ?thesis
    by (auto simp: map_of_runPurgeTimeout split: if_splits)
qed

lemma apply_op_absent:
  assumes "\<not> registers i opn" and "map_of (registry r) i = None"
  shows "map_of (registry (apply_op now opn r)) i = None"
proof -
  have "fst ` set (registry (checkHeartbeatTimeouts now r)) = fst ` set (registry r)"
    by (simp only: set_map [symmetric] keys_checkHeartbeatTimeouts)
  then have sweep: "map_of (registry (checkHeartbeatTimeouts now r)) i = None"
    using assms(2) by (simp add: map_of_eq_None_iff)
  show ?thesis
    using assms sweep
    by (cases opn)
       (auto simp: map_of_registerNF map_of_updateHeartbeat map_of_deregisterNF
          map_of_runPurgeTimeout)
qed

lemma removed_or_absent_run_ops:
  assumes "distinct (map fst (registry r))"
    and "\<forall>x \<in> set ops. \<not> registers i (snd x)"
    and "map_of (registry r) i = None \<or> (\<exists>p. map_of (registry r) i = Some p \<and> nfStatus p = REMOVED)"
  shows "map_of (registry (run_ops ops r)) i = None \<or>
         (\<exists>p'. map_of (registry (run_ops ops r)) i = Some p' \<and> nfStatus p' = REMOVED)"
  using assms
proof (induction ops arbitrary: r)
  case Nil
  then show ?case by simp
next
  case (Cons x ops)
  obtain now opn where x: "x = (now, opn)" by (cases x)
  have nr: "\<not> registers i opn" using Cons.prems(2) x by simp
  have d: "distinct (map fst (registry (apply_op now opn r)))"
    using Cons.prems(1) by (rule distinct_apply_op)
  have step: "map_of (registry (apply_op now opn r)) i = None \<or>
      (\<exists>p. map_of (registry (apply_op now opn r)) i = Some p \<and> nfStatus p = REMOVED)"
  proof (cases "map_of (registry r) i")
    case None
    then show ?thesis using apply_op_absent [OF nr] by simp
  next
    case (Some p)
    with Cons.prems(3) have rem: "nfStatus p = REMOVED" by simp
    show ?thesis
    proof (cases "map_of (registry (apply_op now opn r)) i")
      case None
      then show ?thesis by simp
    next
      case (Some p')
      have "op_status_move opn i (nfStatus p) (nfStatus p')"
        using Cons.prems(1) \<open>map_of (registry r) i = Some p\<close> Some by (rule apply_op_status)
      with rem nr have "nfStatus p' = REMOVED"
        by (cases opn) (auto split: if_splits)
      with Some show ?thesis by simp
    qed
  qed
  have "\<forall>x \<in> set ops. \<not> registers i (snd x)" using Cons.prems(2) by simp
  from Cons.IH [OF d this step] show ?case by (simp add: x)
qed

section \<open>Registries reached from a fresh one\<close>

lemma config_registerNF:
  "heartbeatTimeout (snd (registerNF now i inp r)) = heartbeatTimeout r \<and>
   gracePeriod (snd (registerNF now i inp r)) = gracePeriod r"
  by (simp add: registerNF_def Let_def)

lemma config_updateHeartbeat:
  "heartbeatTimeout (snd (updateHeartbeat now i r)) = heartbeatTimeout r \<and>
   gracePeriod (snd (updateHeartbeat now i r)) = gracePeriod r"
  by (cases "map_of (registry r) i") (simp_all add: updateHeartbeat_unknown updateHeartbeat_known)

lemma config_foldl_deregisterNF:
  "heartbeatTimeout (foldl (\<lambda>r' j. deregisterNF now j reason r') r js) = heartbeatTimeout r \<and>
   gracePeriod (foldl (\<lambda>r' j. deregisterNF now j reason r') r js) = gracePeriod r"
  by (induction js arbitrary: r) (simp_all add: config_deregisterNF)

lemma config_apply_op:
  "heartbeatTimeout (apply_op now opn r) = heartbeatTimeout r \<and>
   gracePeriod (apply_op now opn r) = gracePeriod r"
  by (cases opn)
     (simp_all add: config_registerNF config_updateHeartbeat config_deregisterNF
        checkHeartbeatTimeouts_def config_foldl_deregisterNF runPurgeTimeout_def)

lemma registry_inv_apply_op:
  assumes inv: "registry_inv r" and clock: "0 < now"
  shows "registry_inv (apply_op now opn r)"
proof -
  have d: "distinct (map fst (registry r))" and g: "0 \<le> gracePeriod r"
    and each: "\<And>i p. map_of (registry r) i = Some p \<Longrightarrow>
        lastHeartbeat p \<noteq> 0 \<and> registeredAt p \<noteq> 0 \<and>
        (nfStatus p = UNAVAILABLE \<longrightarrow> lastHeartbeat p + heartbeatTimeout r < statusChangedAt p)"
    using inv by (auto simp: registry_inv_def)
  have d': "distinct (map fst (registry (apply_op now opn r)))"
    using d by (rule distinct_apply_op)
  have g': "0 \<le> gracePeriod (apply_op now opn r)"
    using g by (simp add: config_apply_op)
  have each': "lastHeartbeat p' \<noteq> 0 \<and> registeredAt p' \<noteq> 0 \<and>
        (nfStatus p' = UNAVAILABLE \<longrightarrow> lastHeartbeat p' + heartbeatTimeout r < statusChangedAt p')"
    if after: "map_of (registry (apply_op now opn r)) i = Some p'" for i p'
  proof (cases opn)
    case (Register j inp)
    show ?thesis
    proof (cases "i = j")
      case True
      then have p': "p' = spread_nfProfile inp (default_profile now r j inp (map_of (registry r) j))"
        using after Register by (simp add: map_of_registerNF)
      have "registeredAt p' \<noteq> 0"
        using clock each [of j] unfolding p'
        by (cases "map_of (registry r) j")
           (auto simp: spread_nfProfile_def default_profile_def)
      moreover have "lastHeartbeat p' = now" "nfStatus p' = REGISTERED"
        unfolding p' by (simp_all add: spread_nfProfile_def default_profile_def)
      ultimately show ?thesis using clock by simp
    next
      case False
      then have "map_of (registry r) i = Some p'"
        using after Register by (simp add: map_of_registerNF)
      then show ?thesis by (rule each)
    qed
  next
    case (RenewHeartbeat j)
    show ?thesis
    proof (cases "i = j")
      case True
      then obtain p where p: "map_of (registry r) i = Some p"
          and p': "p' = (if nfStatus p = UNAVAILABLE
              then p \<lparr> lastHeartbeat := now, nfStatus := REGISTERED, statusChangedAt := now \<rparr>
              else p \<lparr> lastHeartbeat := now \<rparr>)"
        using after RenewHeartbeat by (auto simp: map_of_updateHeartbeat)
      then show ?thesis using each [OF p] clock by auto
    next
      case False
      then have "map_of (registry r) i = Some p'"
        using after RenewHeartbeat by (simp add: map_of_updateHeartbeat)
      then show ?thesis by (rule each)
    qed
  next
    case (Deregister j reason)
    show ?thesis
    proof (cases "i = j")
      case True
      then obtain p where p: "map_of (registry r) i = Some p"
          and p': "p' = deregistered now reason p"
        using after Deregister by (auto simp: map_of_deregisterNF)
      then show ?thesis using each [OF p] by (simp add: deregistered_def)
    next
      case False
      then have "map_of (registry r) i = Some p'"
        using after Deregister by (simp add: map_of_deregisterNF)
      then show ?thesis by (rule each)
    qed
  next
    case Sweep
    then obtain p where p: "map_of (registry r) i = Some p"
        and p': "p' = (if snd (sweep_visit now r p)
                       then deregistered now ''AUTOMATIC_HEARTBEAT_TIMEOUT'' p
                       else fst (sweep_visit now r p))"
      using after by (auto simp: map_of_checkHeartbeatTimeouts [OF d])
    have hb: "lastHeartbeat_or_registeredAt p = lastHeartbeat p"
      using each [OF p] by (simp add: lastHeartbeat_or_registeredAt_def)
    show ?thesis
      using each [OF p] unfolding p'
      by (auto simp: deregistered_def sweep_visit_def Let_def hb)
  next
    case (Purge t)
    then have "map_of (registry r) i = Some p'"
      using after by (auto simp: map_of_runPurgeTimeout split: if_splits)
    then show ?thesis by (rule each)
  qed
  show ?thesis
    unfolding registry_inv_def
    using d' g' each' by (simp add: config_apply_op)
qed

lemma registry_inv_new: "registry_inv new_NRFRegistry"
  by (simp add: registry_inv_def new_NRFRegistry_def)

lemma registry_inv_run_ops:
  "registry_inv r \<Longrightarrow> positive_clock ops \<Longrightarrow> registry_inv (run_ops ops r)"
proof (induction ops arbitrary: r)
  case Nil
  then show ?case by simp
next
  case (Cons x ops)
  obtain now opn where x: "x = (now, opn)" by (cases x)
  have "0 < now" and rest: "positive_clock ops"
    using Cons.prems(2) by (simp_all add: positive_clock_def x)
  then have "registry_inv (apply_op now opn r)"
    using Cons.prems(1) by (simp add: registry_inv_apply_op)
  then show ?case
    using Cons.IH rest by (simp add: x)
qed

lemma reachable_registry_inv:
  "positive_clock ops \<Longrightarrow> registry_inv (run_ops ops new_NRFRegistry)"
  using registry_inv_new by (rule registry_inv_run_ops)

lemma distinct_run_ops:
  "distinct (map fst (registry r)) \<Longrightarrow> distinct (map fst (registry (run_ops ops r)))"
proof (induction ops arbitrary: r)
  case Nil
  then show ?case by simp
next
  case (Cons x ops)
  obtain now opn where x: "x = (now, opn)" by (cases x)
  have "distinct (map fst (registry (apply_op now opn r)))"
    using Cons.prems by (rule distinct_apply_op)
  then show ?case using Cons.IH by (simp add: x)
qed

lemma distinct_reachable: "distinct (map fst (registry (run_ops ops new_NRFRegistry)))"
  by (rule distinct_run_ops) (simp add: new_NRFRegistry_def)


section \<open>The example states, evaluated\<close>

lemma registry_amf_entries: "registry registry_amf = [(''amf-1'', profile_amf)]"
  by (simp add: registry_amf_def profile_amf_def registerNF_registry new_NRFRegistry_def)

lemma profile_amf_fields:
  "registeredAt profile_amf = 1000 \<and> nfStatus profile_amf = REGISTERED \<and>
   nfType profile_amf = ''AMF'' \<and> lastHeartbeat profile_amf = 1000 \<and>
   statusChangedAt profile_amf = 1000"
  by (simp add: profile_amf_def spread_nfProfile_def default_profile_def amf_profile_input_def)

lemma registry_amf_config:
  "heartbeatTimeout registry_amf = 120000 \<and> gracePeriod registry_amf = 30000"
  by (simp add: registry_amf_def registerNF_def Let_def new_NRFRegistry_def)

lemma registry_unavailable_entries:
  "registry registry_unavailable = [(''amf-1'', profile_unavailable)]"
  by (simp add: registry_unavailable_def checkHeartbeatTimeouts_def sweep_scan_def
      sweep_toRemove_def sweep_visit_def registry_amf_entries profile_amf_fields
      registry_amf_config lastHeartbeat_or_registeredAt_def profile_unavailable_def)

lemma registry_unavailable_config:
  "heartbeatTimeout registry_unavailable = 120000 \<and> gracePeriod registry_unavailable = 30000"
  by (simp add: registry_unavailable_def checkHeartbeatTimeouts_def sweep_scan_def
      sweep_toRemove_def sweep_visit_def registry_amf_entries profile_amf_fields
      registry_amf_config lastHeartbeat_or_registeredAt_def)

lemma profile_unavailable_fields:
  "registeredAt profile_unavailable = 1000 \<and> nfStatus profile_unavailable = UNAVAILABLE \<and>
   nfType profile_unavailable = ''AMF'' \<and> lastHeartbeat profile_unavailable = 1000 \<and>
   statusChangedAt profile_unavailable = 130000"
  by (simp add: profile_unavailable_def profile_amf_fields)

lemma registry_removed_entries:
  "registry registry_removed = [(''amf-1'', deregistered 3000 ''MANUAL'' profile_amf)]"
  by (simp add: registry_removed_def deregisterNF_known [of _ _ profile_amf] registry_amf_entries)

section \<open>The deregistration history under a sweep\<close>

lemma history_deregisterNF:
  "set (deregistrationHistory r) \<subseteq> set (deregistrationHistory (deregisterNF now j reason r))"
  by (cases "map_of (registry r) j") (auto simp: deregisterNF_unknown deregisterNF_known)

lemma history_foldl_deregisterNF:
  "set (deregistrationHistory r) \<subseteq>
     set (deregistrationHistory (foldl (\<lambda>r' j. deregisterNF now j reason r') r js))"
proof (induction js arbitrary: r)
  case Nil
  then show ?case by simp
next
  case (Cons j js)
  have "set (deregistrationHistory r) \<subseteq> set (deregistrationHistory (deregisterNF now j reason r))"
    by (rule history_deregisterNF)
  also have "\<dots> \<subseteq> set (deregistrationHistory
      (foldl (\<lambda>r' j. deregisterNF now j reason r') (deregisterNF now j reason r) js))"
    by (rule Cons.IH)
  finally show ?case by simp
qed

lemma record_foldl_deregisterNF:
  assumes "i \<in> set js" and "map_of (registry r) i = Some p"
  shows "deregistration_record_of now i reason (deregistered now reason p)
           \<in> set (deregistrationHistory (foldl (\<lambda>r' j. deregisterNF now j reason r') r js))"
  using assms
proof (induction js arbitrary: r)
  case Nil
  then show ?case by simp
next
  case (Cons j js)
  show ?case
  proof (cases "j = i")
    case True
    have "deregistration_record_of now i reason (deregistered now reason p)
            \<in> set (deregistrationHistory (deregisterNF now i reason r))"
      using Cons.prems(2) by (simp add: deregisterNF_known)
    then show ?thesis
      using history_foldl_deregisterNF [of "deregisterNF now i reason r" now reason js] True
      by auto
  next
    case False
    then have "i \<in> set js" using Cons.prems(1) by simp
    moreover have "map_of (registry (deregisterNF now j reason r)) i = Some p"
      using False Cons.prems(2) by (simp add: map_of_deregisterNF)
    ultimately show ?thesis
      using Cons.IH [of "deregisterNF now j reason r"] by simp
  qed
qed

section \<open>Symmetry of the compatibility table\<close>

lemma validConnections_listed_is_key:
  "validConnections b = Some l \<Longrightarrow> a \<in> set l \<Longrightarrow> validConnections a \<noteq> None"
  unfolding validConnections_def
  by (auto split: if_splits)

lemma isConnectionValid_iff:
  "isConnectionValid a b \<longleftrightarrow>
     (\<exists>l. validConnections a = Some l \<and> b \<in> set l) \<or>
     (\<exists>l. validConnections b = Some l \<and> a \<in> set l)"
proof (cases "validConnections a")
  case None
  then show ?thesis
    using validConnections_listed_is_key [of b _ a]
    by (auto simp: isConnectionValid_def)
next
  case (Some l)
  then show ?thesis
    by (auto simp: isConnectionValid_def split: option.splits)
qed

lemma isConnectionValid_commute: "isConnectionValid a b = isConnectionValid b a"
  by (auto simp: isConnectionValid_iff)

section \<open>Subnets and the admission of a link\<close>

lemma split_dot_nonempty: "split_dot s \<noteq> []"
  by (induction s) auto

lemma split_dot_no_dot: "p \<in> set (split_dot s) \<Longrightarrow> CHR ''.'' \<notin> set p"
proof (induction s arbitrary: p)
  case Nil
  then show ?case by simp
next
  case (Cons c cs)
  show ?case
  proof (cases "c = CHR ''.''")
    case True
    with Cons show ?thesis by auto
  next
    case False
    have ne: "split_dot cs \<noteq> []" by (rule split_dot_nonempty)
    then have hd_in: "hd (split_dot cs) \<in> set (split_dot cs)" by simp
    from Cons.prems False have "p = c # hd (split_dot cs) \<or> p \<in> set (tl (split_dot cs))"
      by simp
    then show ?thesis
    proof
      assume "p = c # hd (split_dot cs)"
      with False Cons.IH [OF hd_in] show ?thesis by simp
    next
      assume "p \<in> set (tl (split_dot cs))"
      then have "p \<in> set (split_dot cs)" using ne by (metis list.set_sel(2))
      then show ?thesis by (rule Cons.IH)
    qed
  qed
qed

lemma dot_separated_inject:
  assumes "CHR ''.'' \<notin> set x" and "CHR ''.'' \<notin> set x'"
    and "x @ CHR ''.'' # u = x' @ CHR ''.'' # u'"
  shows "x = x' \<and> u = u'"
  using assms
proof (induction x arbitrary: x')
  case Nil
  then show ?case by (cases x') auto
next
  case (Cons c x)
  then show ?case by (cases x') auto
qed

lemma getNetworkFromIP_three:
  assumes "3 \<le> length (split_dot ip)"
  shows "getNetworkFromIP ip =
           split_dot ip ! 0 @ CHR ''.'' # split_dot ip ! 1 @ CHR ''.'' # split_dot ip ! 2"
  using assms
  by (simp add: getNetworkFromIP_def template_part_def Let_def split_dot_nonempty)

lemma take3_nth:
  "3 \<le> length xs \<Longrightarrow> take 3 xs = [xs ! 0, xs ! 1, xs ! 2]"
  by (cases xs; cases "tl xs"; cases "tl (tl xs)") auto

lemma same_network_iff_octets:
  assumes "3 \<le> length (split_dot a)" and "3 \<le> length (split_dot b)"
  shows "getNetworkFromIP a = getNetworkFromIP b \<longleftrightarrow> first_three_octets a = first_three_octets b"
proof -
  let ?A = "split_dot a" and ?B = "split_dot b"
  have inA: "?A ! 0 \<in> set ?A" "?A ! 1 \<in> set ?A" "?A ! 2 \<in> set ?A"
    using assms(1) by (simp_all add: split_dot_nonempty)
  have inB: "?B ! 0 \<in> set ?B" "?B ! 1 \<in> set ?B" "?B ! 2 \<in> set ?B"
    using assms(2) by (simp_all add: split_dot_nonempty)
  note nodA = inA [THEN split_dot_no_dot] and nodB = inB [THEN split_dot_no_dot]
  have "getNetworkFromIP a = getNetworkFromIP b \<longleftrightarrow>
      ?A ! 0 = ?B ! 0 \<and> ?A ! 1 = ?B ! 1 \<and> ?A ! 2 = ?B ! 2"
  proof
    assume "getNetworkFromIP a = getNetworkFromIP b"
    then have eq: "?A ! 0 @ CHR ''.'' # (?A ! 1 @ CHR ''.'' # ?A ! 2) =
        ?B ! 0 @ CHR ''.'' # (?B ! 1 @ CHR ''.'' # ?B ! 2)"
      using assms by (simp add: getNetworkFromIP_three)
    from dot_separated_inject [OF nodA(1) nodB(1) eq]
    have e0: "?A ! 0 = ?B ! 0" and rest: "?A ! 1 @ CHR ''.'' # ?A ! 2 = ?B ! 1 @ CHR ''.'' # ?B ! 2"
      by simp_all
    from dot_separated_inject [OF nodA(2) nodB(2) rest] e0
    show "?A ! 0 = ?B ! 0 \<and> ?A ! 1 = ?B ! 1 \<and> ?A ! 2 = ?B ! 2" by simp
  next
    assume "?A ! 0 = ?B ! 0 \<and> ?A ! 1 = ?B ! 1 \<and> ?A ! 2 = ?B ! 2"
    then show "getNetworkFromIP a = getNetworkFromIP b"
      using assms by (simp add: getNetworkFromIP_three)
  qed
  then show ?thesis
    using assms by (simp add: first_three_octets_def take3_nth)
qed

lemma createConnection_missing:
  "getNFById (dataStore w) s = None \<or> getNFById (dataStore w) t = None \<Longrightarrow>
   createConnection now cid s t m w = (Inl InvalidNFIds, w)"
  by (auto simp: createConnection_def split: option.splits)

lemma createConnection_self:
  "getNFById (dataStore w) s = Some sn \<Longrightarrow> getNFById (dataStore w) t = Some tn \<Longrightarrow> s = t \<Longrightarrow>
   createConnection now cid s t m w = (Inl SelfConnection, w)"
  by (simp add: createConnection_def)

lemma createConnection_subnet:
  "getNFById (dataStore w) s = Some sn \<Longrightarrow> getNFById (dataStore w) t = Some tn \<Longrightarrow> s \<noteq> t \<Longrightarrow>
   getNetworkFromIP (cfg_ipAddress (nf_config sn)) \<noteq> getNetworkFromIP (cfg_ipAddress (nf_config tn)) \<Longrightarrow>
   createConnection now cid s t m w =
     (Inl (SubnetRestriction (getNetworkFromIP (cfg_ipAddress (nf_config sn)))
             (getNetworkFromIP (cfg_ipAddress (nf_config tn)))), w)"
  by (simp add: createConnection_def Let_def)

lemma createConnection_invalid:
  "getNFById (dataStore w) s = Some sn \<Longrightarrow> getNFById (dataStore w) t = Some tn \<Longrightarrow> s \<noteq> t \<Longrightarrow>
   getNetworkFromIP (cfg_ipAddress (nf_config sn)) = getNetworkFromIP (cfg_ipAddress (nf_config tn)) \<Longrightarrow>
   \<not> isConnectionValid (nf_type sn) (nf_type tn) \<Longrightarrow>
   createConnection now cid s t m w = (Inl (InvalidConnection (nf_type sn) (nf_type tn)), w)"
  by (simp add: createConnection_def Let_def)

lemma createConnection_accepted:
  "getNFById (dataStore w) s = Some sn \<Longrightarrow> getNFById (dataStore w) t = Some tn \<Longrightarrow> s \<noteq> t \<Longrightarrow>
   getNetworkFromIP (cfg_ipAddress (nf_config sn)) = getNetworkFromIP (cfg_ipAddress (nf_config tn)) \<Longrightarrow>
   isConnectionValid (nf_type sn) (nf_type tn) \<Longrightarrow>
   fst (createConnection now cid s t m w) = Inr (new_connection now cid s t m w sn tn) \<and>
   connections (dataStore (snd (createConnection now cid s t m w))) =
     connections (dataStore w) @ [new_connection now cid s t m w sn tn]"
  by (simp add: createConnection_def Let_def new_connection_def addConnection_def updateNF_def)

lemma createConnection_verdict:
  "isl (fst (createConnection now cid s t m w)) \<longleftrightarrow>
     \<not> (\<exists>sn tn. getNFById (dataStore w) s = Some sn \<and> getNFById (dataStore w) t = Some tn \<and>
          s \<noteq> t \<and>
          getNetworkFromIP (cfg_ipAddress (nf_config sn))
            = getNetworkFromIP (cfg_ipAddress (nf_config tn)) \<and>
          isConnectionValid (nf_type sn) (nf_type tn))"
proof (cases "getNFById (dataStore w) s")
  case None
  then show ?thesis by (simp add: createConnection_missing)
next
  case sn: (Some sn)
  show ?thesis
  proof (cases "getNFById (dataStore w) t")
    case None
    then show ?thesis by (simp add: createConnection_missing)
  next
    case tn: (Some tn)
    show ?thesis
    proof (cases "s = t")
      case True
      then show ?thesis using sn tn by (simp add: createConnection_self)
    next
      case ne: False
      show ?thesis
      proof (cases "getNetworkFromIP (cfg_ipAddress (nf_config sn))
                      = getNetworkFromIP (cfg_ipAddress (nf_config tn))")
        case False
        then show ?thesis using sn tn ne by (simp add: createConnection_subnet)
      next
        case net: True
        show ?thesis
        proof (cases "isConnectionValid (nf_type sn) (nf_type tn)")
          case False
          then show ?thesis using sn tn ne net by (simp add: createConnection_invalid)
        next
          case True
          then show ?thesis
            using sn tn ne net createConnection_accepted [OF sn tn ne net True, of now cid m]
            by simp
        qed
      qed
    qed
  qed
qed

section \<open>The example topology, evaluated\<close>

lemma lab_world_nfs:
  "getNFById (dataStore lab_world) ''nrf-1'' = Some nrf_nf \<and>
   getNFById (dataStore lab_world) ''amf-1'' = Some amf_nf \<and>
   getNFById (dataStore lab_world) ''smf-1'' = Some smf_nf \<and>
   getNFById (dataStore lab_world) ''upf-1'' = None"
  by (simp add: lab_world_def getNFById_def nrf_nf_def amf_nf_def smf_nf_def)

lemma lab_networks:
  "getNetworkFromIP (cfg_ipAddress (nf_config nrf_nf)) = ''192.168.1'' \<and>
   getNetworkFromIP (cfg_ipAddress (nf_config amf_nf)) = ''192.168.1'' \<and>
   getNetworkFromIP (cfg_ipAddress (nf_config smf_nf)) = ''10.0.0''"
  by (simp add: nrf_nf_def amf_nf_def smf_nf_def getNetworkFromIP_def template_part_def)

lemma lab_types:
  "nf_type nrf_nf = ''NRF'' \<and> nf_type amf_nf = ''AMF'' \<and> nf_type smf_nf = ''SMF'' \<and>
   nf_id nrf_nf = ''nrf-1'' \<and> nf_id amf_nf = ''amf-1'' \<and> nf_id smf_nf = ''smf-1''"
  by (simp add: nrf_nf_def amf_nf_def smf_nf_def)

lemma lab_valid:
  "isConnectionValid ''AMF'' ''NRF'' \<and> isConnectionValid ''AMF'' ''SMF'' \<and>
   \<not> isConnectionValid ''NRF'' ''gNB'' \<and> \<not> isConnectionValid ''gNB'' ''NRF''"
  by (simp add: isConnectionValid_def validConnections_def)

lemma createConnection_outcome:
  "(isl (fst (createConnection now cid s t m w)) \<and> snd (createConnection now cid s t m w) = w) \<or>
   (\<exists>sn tn. getNFById (dataStore w) s = Some sn \<and> getNFById (dataStore w) t = Some tn \<and>
      fst (createConnection now cid s t m w) = Inr (new_connection now cid s t m w sn tn) \<and>
      connections (dataStore (snd (createConnection now cid s t m w))) =
        connections (dataStore w) @ [new_connection now cid s t m w sn tn])"
proof (cases "getNFById (dataStore w) s")
  case None
  then show ?thesis by (simp add: createConnection_missing)
next
  case sn: (Some sn)
  show ?thesis
  proof (cases "getNFById (dataStore w) t")
    case None
    then show ?thesis by (simp add: createConnection_missing)
  next
    case tn: (Some tn)
    show ?thesis
    proof (cases "s = t")
      case True
      then show ?thesis using sn tn by (simp add: createConnection_self)
    next
      case ne: False
      show ?thesis
      proof (cases "getNetworkFromIP (cfg_ipAddress (nf_config sn))
                      = getNetworkFromIP (cfg_ipAddress (nf_config tn))")
        case False
        then show ?thesis using sn tn ne by (simp add: createConnection_subnet)
      next
        case net: True
        show ?thesis
        proof (cases "isConnectionValid (nf_type sn) (nf_type tn)")
          case False
          then show ?thesis using sn tn ne net by (simp add: createConnection_invalid)
        next
          case True
          show ?thesis
            using sn tn createConnection_accepted [OF sn tn ne net True, of now cid m]
            by simp
        qed
      qed
    qed
  qed
qed

lemma createConnection_order:
  "fst (createConnection now cid s t m w) =
     (case getNFById (dataStore w) s of
        None \<Rightarrow> Inl InvalidNFIds
      | Some sn \<Rightarrow>
          (case getNFById (dataStore w) t of
             None \<Rightarrow> Inl InvalidNFIds
           | Some tn \<Rightarrow>
               if s = t then Inl SelfConnection
               else if getNetworkFromIP (cfg_ipAddress (nf_config sn))
                         \<noteq> getNetworkFromIP (cfg_ipAddress (nf_config tn))
               then Inl (SubnetRestriction (getNetworkFromIP (cfg_ipAddress (nf_config sn)))
                           (getNetworkFromIP (cfg_ipAddress (nf_config tn))))
               else if \<not> isConnectionValid (nf_type sn) (nf_type tn)
               then Inl (InvalidConnection (nf_type sn) (nf_type tn))
               else Inr (new_connection now cid s t m w sn tn)))"
  by (simp add: createConnection_def Let_def split: option.splits)

section \<open>Links to the registry node\<close>

lemma getNFById_nf_id: "getNFById ds i = Some n \<Longrightarrow> nf_id n = i"
  by (auto simp: getNFById_def find_Some_iff)

lemma find_map_nf_id:
  "(\<And>n. nf_id (g n) = nf_id n) \<Longrightarrow>
   find (\<lambda>n. nf_id n = j) (map g xs) = map_option g (find (\<lambda>n. nf_id n = j) xs)"
  by (induction xs) auto

lemma getNFById_updateNF:
  assumes "\<And>n. nf_id (f n) = nf_id n"
  shows "getNFById (updateNF i f ds) j =
           map_option (\<lambda>n. if nf_id n = i then f n else n) (getNFById ds j)"
proof -
  have "\<And>n. nf_id (if nf_id n = i then f n else n) = nf_id n"
    using assms by simp
  then show ?thesis
    by (simp add: getNFById_def updateNF_def find_map_nf_id)
qed

lemma getNFById_addConnection [simp]: "getNFById (addConnection c ds) j = getNFById ds j"
  by (simp add: getNFById_def addConnection_def)

lemma getNFById_removeConnection [simp]: "getNFById (removeConnection c ds) j = getNFById ds j"
  by (simp add: getNFById_def removeConnection_def)

lemma createConnection_schedules:
  assumes "getNFById (dataStore w) s = Some sn" and "getNFById (dataStore w) t = Some tn"
    and "fst (createConnection now cid s t m w) = Inr c"
    and "(nf_type tn = ''NRF'' \<and> nf_type sn \<noteq> ''NRF'' \<and> other = sn) \<or>
         (nf_type sn = ''NRF'' \<and> nf_type tn \<noteq> ''NRF'' \<and> other = tn)"
  shows "c = new_connection now cid s t m w sn tn \<and> s \<noteq> t \<and>
         snd (createConnection now cid s t m w) =
           w \<lparr> dataStore := addConnection c (dataStore w),
               registrationTimeouts := registrationTimeouts w @ [(now + 1500, other)] \<rparr>"
proof -
  have all: "s \<noteq> t \<and>
      getNetworkFromIP (cfg_ipAddress (nf_config sn))
        = getNetworkFromIP (cfg_ipAddress (nf_config tn)) \<and>
      isConnectionValid (nf_type sn) (nf_type tn) \<and>
      c = new_connection now cid s t m w sn tn"
    using createConnection_order [of now cid s t m w] assms(1-3)
    by (simp split: if_splits)
  then have ne: "s \<noteq> t"
    and net: "getNetworkFromIP (cfg_ipAddress (nf_config sn))
               = getNetworkFromIP (cfg_ipAddress (nf_config tn))"
    and val: "isConnectionValid (nf_type sn) (nf_type tn)"
    and c: "c = new_connection now cid s t m w sn tn"
    by simp_all
  have "snd (createConnection now cid s t m w) =
           w \<lparr> dataStore := addConnection c (dataStore w),
               registrationTimeouts := registrationTimeouts w @ [(now + 1500, other)] \<rparr>"
    using assms(1,2,4) ne net val
    by (auto simp: createConnection_def Let_def c)
  with c ne show ?thesis by simp
qed

lemma connections_updateNF [simp]: "connections (updateNF i f ds) = connections ds"
  by (simp add: updateNF_def)

lemma startNFHeartbeat_started:
  assumes "getNFById (dataStore w) i = Some n" and "nf_type n \<noteq> ''NRF''"
    and "hasNRFConnection (dataStore w) i"
  shows "(\<exists>n'. getNFById (dataStore (startNFHeartbeat now i w)) i = Some n' \<and>
               heartbeatIntervalId n' \<noteq> None) \<and>
         connections (dataStore (startNFHeartbeat now i w)) = connections (dataStore w) \<and>
         (\<forall>j. map_option nf_type (getNFById (dataStore (startNFHeartbeat now i w)) j)
               = map_option nf_type (getNFById (dataStore w) j)) \<and>
         nrfRegistry (startNFHeartbeat now i w) =
           map_option (\<lambda>r. if heartbeatIntervalId n = None then snd (updateHeartbeat now i r) else r)
             (nrfRegistry w)"
proof (cases "heartbeatIntervalId n = None")
  case False
  then have "startNFHeartbeat now i w = w"
    using assms by (simp add: startNFHeartbeat_def)
  with False assms(1) show ?thesis
    by (cases "nrfRegistry w") auto
next
  case True
  let ?f = "\<lambda>n'. n' \<lparr> heartbeatIntervalId := Some (IntervalId (nextIntervalId w)) \<rparr>"
  let ?w1 = "w \<lparr> dataStore := updateNF i ?f (dataStore w),
                  nextIntervalId := Suc (nextIntervalId w) \<rparr>"
  have idn: "nf_id n = i" using assms(1) by (rule getNFById_nf_id)
  have ds: "dataStore (startNFHeartbeat now i w) = updateNF i ?f (dataStore w)"
    using True assms by (simp add: startNFHeartbeat_def Let_def split: option.splits)
  have reg: "nrfRegistry (startNFHeartbeat now i w) =
      map_option (\<lambda>r. snd (updateHeartbeat now i r)) (nrfRegistry w)"
    using True assms by (simp add: startNFHeartbeat_def Let_def split: option.splits)
  have look: "\<And>j. getNFById (updateNF i ?f (dataStore w)) j =
      map_option (\<lambda>n'. if nf_id n' = i then ?f n' else n') (getNFById (dataStore w) j)"
    by (rule getNFById_updateNF) simp
  have a: "\<exists>n'. getNFById (dataStore (startNFHeartbeat now i w)) i = Some n' \<and>
               heartbeatIntervalId n' \<noteq> None"
    using assms(1) idn by (simp add: ds look)
  have b: "connections (dataStore (startNFHeartbeat now i w)) = connections (dataStore w)"
    by (simp add: ds)
  have c: "\<forall>j. map_option nf_type (getNFById (dataStore (startNFHeartbeat now i w)) j)
               = map_option nf_type (getNFById (dataStore w) j)"
    by (simp add: ds look option.map_comp comp_def if_distrib cong: if_cong)
  from a b c reg True show ?thesis by simp
qed

lemma stopNFHeartbeat_stopped:
  assumes "getNFById (dataStore w) i = Some n"
  shows "(\<exists>n'. getNFById (dataStore (stopNFHeartbeat i w)) i = Some n' \<and>
               heartbeatIntervalId n' = None) \<and>
         connections (dataStore (stopNFHeartbeat i w)) = connections (dataStore w) \<and>
         nrfRegistry (stopNFHeartbeat i w) = nrfRegistry w"
proof (cases "heartbeatIntervalId n = None")
  case True
  then have "stopNFHeartbeat i w = w"
    using assms by (simp add: stopNFHeartbeat_def)
  with True assms show ?thesis by simp
next
  case False
  let ?f = "\<lambda>n'. n' \<lparr> heartbeatIntervalId := None \<rparr>"
  have idn: "nf_id n = i" using assms by (rule getNFById_nf_id)
  have w': "stopNFHeartbeat i w = w \<lparr> dataStore := updateNF i ?f (dataStore w) \<rparr>"
    using False assms by (simp add: stopNFHeartbeat_def)
  have look: "\<And>j. getNFById (updateNF i ?f (dataStore w)) j =
      map_option (\<lambda>n'. if nf_id n' = i then ?f n' else n') (getNFById (dataStore w) j)"
    by (rule getNFById_updateNF) simp
  show ?thesis
    using assms idn by (simp add: w' look)
qed

lemma hasNRFConnection_link:
  assumes "c \<in> set (connections ds)" and "sourceId c \<noteq> targetId c"
    and "getNFById ds (sourceId c) = Some sn" and "getNFById ds (targetId c) = Some tn"
  shows "nf_type tn = ''NRF'' \<Longrightarrow> hasNRFConnection ds (sourceId c)"
    and "nf_type sn = ''NRF'' \<Longrightarrow> hasNRFConnection ds (targetId c)"
proof -
  assume t: "nf_type tn = ''NRF''"
  have "c \<in> set (getConnectionsForNF ds (sourceId c))"
    using assms(1) by (simp add: getConnectionsForNF_def)
  moreover have "case getNFById ds (if sourceId c = sourceId c then targetId c else sourceId c) of
                   None \<Rightarrow> False | Some otherNF \<Rightarrow> nf_type otherNF = ''NRF''"
    using assms(4) t by simp
  ultimately show "hasNRFConnection ds (sourceId c)"
    unfolding hasNRFConnection_def list_ex_iff by (rule bexI [rotated])
next
  assume s: "nf_type sn = ''NRF''"
  have "c \<in> set (getConnectionsForNF ds (targetId c))"
    using assms(1) by (simp add: getConnectionsForNF_def)
  moreover have "case getNFById ds (if sourceId c = targetId c then targetId c else sourceId c) of
                   None \<Rightarrow> False | Some otherNF \<Rightarrow> nf_type otherNF = ''NRF''"
    using assms(2,3) s by simp
  ultimately show "hasNRFConnection ds (targetId c)"
    unfolding hasNRFConnection_def list_ex_iff by (rule bexI [rotated])
qed

lemma registered_after_heartbeat:
  assumes "map_of (registry r) i = Some p" and "nfStatus p = REGISTERED"
  shows "\<exists>p'. map_of (registry (snd (updateHeartbeat now i r))) i = Some p' \<and>
              nfStatus p' = REGISTERED \<and> nfType p' = nfType p"
  using assms by (simp add: map_of_updateHeartbeat)

lemma discover_includes:
  assumes "map_of (registry r) i = Some p" and "nfStatus p = REGISTERED"
  shows "p \<in> set (discoverNFs \<lparr> q_nfType = None, q_service = None \<rparr> r) \<and>
         p \<in> set (discoverNFs \<lparr> q_nfType = Some (nfType p), q_service = None \<rparr> r)"
proof -
  have "(i, p) \<in> set (registry r)"
    using assms(1) by (rule map_of_SomeD)
  moreover have "discover_match \<lparr> q_nfType = None, q_service = None \<rparr> p"
    and "discover_match \<lparr> q_nfType = Some (nfType p), q_service = None \<rparr> p"
    using assms(2) by (simp_all add: discover_match_def truthy_string_def)
  ultimately show ?thesis
    by (force simp: discoverNFs_filter)
qed

lemma discover_excludes:
  assumes "distinct (map fst (registry r))" and "map_of (registry r) i = Some p"
    and "nfStatus p \<noteq> REGISTERED"
  shows "discoverNFs query r = discoverNFs query (r \<lparr> registry := AList.delete i (registry r) \<rparr>)"
proof -
  have ex: "\<forall>e \<in> set (registry r). discover_match query (snd e) \<longrightarrow> fst e \<noteq> i"
  proof (intro ballI impI notI)
    fix e assume e: "e \<in> set (registry r)" and m: "discover_match query (snd e)" and "fst e = i"
    then have "map_of (registry r) i = Some (snd e)"
      using assms(1) by (cases e) auto
    with assms(2) have "snd e = p" by simp
    with m assms(3) show False by (simp add: discover_match_def split: if_splits)
  qed
  have "filter (\<lambda>(k, q). discover_match query q) (registry r) =
      filter (\<lambda>(k, q). discover_match query q) (AList.delete i (registry r))"
    unfolding AList.delete_eq filter_filter
    using ex by (intro filter_cong [OF refl]) force
  then show ?thesis
    by (simp add: discoverNFs_filter)
qed

lemma runRegistrationTimeout_registers:
  assumes pending: "(due, other) \<in> set (registrationTimeouts w)"
    and reg: "nrfRegistry w = Some r"
    and nf: "getNFById (dataStore w) (nf_id other) = Some n"
    and ty: "nf_type n \<noteq> ''NRF''"
    and link: "hasNRFConnection (dataStore w) (nf_id other)"
  shows "\<exists>r2 p. nrfRegistry (runRegistrationTimeout now (due, other) w) = Some r2 \<and>
           map_of (registry r2) (nf_id other) = Some p \<and> nfStatus p = REGISTERED \<and>
           nfType p = nf_type other \<and>
           map fst (registry r2) =
             map fst (registry (snd (registerNF now (nf_id other) (nfProfile_of other) r)))"
    and "\<exists>n'. getNFById (dataStore (runRegistrationTimeout now (due, other) w)) (nf_id other) = Some n' \<and>
           heartbeatIntervalId n' \<noteq> None"
    and "connections (dataStore (runRegistrationTimeout now (due, other) w)) = connections (dataStore w)"
    and "\<forall>j. map_option nf_type (getNFById (dataStore (runRegistrationTimeout now (due, other) w)) j)
           = map_option nf_type (getNFById (dataStore w) j)"
proof -
  let ?i = "nf_id other"
  let ?r1 = "snd (registerNF now ?i (nfProfile_of other) r)"
  let ?w1 = "w \<lparr> registrationTimeouts := remove1 (due, other) (registrationTimeouts w),
                  nrfRegistry := Some ?r1 \<rparr>"
  have run: "runRegistrationTimeout now (due, other) w = startNFHeartbeat now ?i ?w1"
    using pending reg by (simp add: runRegistrationTimeout_def Let_def)
  have nf1: "getNFById (dataStore ?w1) ?i = Some n" using nf by simp
  have link1: "hasNRFConnection (dataStore ?w1) ?i" using link by simp
  note st = startNFHeartbeat_started [OF nf1 ty link1, of now]
  define p where "p = spread_nfProfile (nfProfile_of other)
      (default_profile now r ?i (nfProfile_of other) (map_of (registry r) ?i))"
  have p: "map_of (registry ?r1) ?i = Some p" "nfStatus p = REGISTERED"
      "nfType p = nf_type other"
    by (simp_all add: p_def map_of_registerNF)
       (simp add: spread_nfProfile_def nfProfile_of_def)
  have regs: "nrfRegistry (startNFHeartbeat now ?i ?w1) =
      Some (if heartbeatIntervalId n = None then snd (updateHeartbeat now ?i ?r1) else ?r1)"
    using st by simp
  show "\<exists>r2 p. nrfRegistry (runRegistrationTimeout now (due, other) w) = Some r2 \<and>
           map_of (registry r2) ?i = Some p \<and> nfStatus p = REGISTERED \<and>
           nfType p = nf_type other \<and> map fst (registry r2) = map fst (registry ?r1)"
  proof (cases "heartbeatIntervalId n = None")
    case True
    obtain p' where "map_of (registry (snd (updateHeartbeat now ?i ?r1))) ?i = Some p'"
        "nfStatus p' = REGISTERED" "nfType p' = nfType p"
      using registered_after_heartbeat [OF p(1,2), of now] by blast
    with True p(3) show ?thesis
      by (simp add: run regs keys_updateHeartbeat)
  next
    case False
    then have "nrfRegistry (startNFHeartbeat now ?i ?w1) = Some ?r1"
      unfolding regs by (rule if_not_P [THEN arg_cong])
    with p show ?thesis by (simp add: run)
  qed
  show "\<exists>n'. getNFById (dataStore (runRegistrationTimeout now (due, other) w)) ?i = Some n' \<and>
           heartbeatIntervalId n' \<noteq> None"
    using st by (simp add: run)
  show "connections (dataStore (runRegistrationTimeout now (due, other) w)) = connections (dataStore w)"
    using st by (simp add: run)
  show "\<forall>j. map_option nf_type (getNFById (dataStore (runRegistrationTimeout now (due, other) w)) j)
           = map_option nf_type (getNFById (dataStore w) j)"
    using st by (simp add: run)
qed

lemma deleteConnection_deregisters:
  assumes conn: "getConnectionById (dataStore w) cid = Some c"
    and src: "getNFById (dataStore w) (sourceId c) = Some sn"
    and tgt: "getNFById (dataStore w) (targetId c) = Some tn"
    and one: "(nf_type tn = ''NRF'' \<and> nf_type sn \<noteq> ''NRF'' \<and> i = sourceId c) \<or>
              (nf_type sn = ''NRF'' \<and> nf_type tn \<noteq> ''NRF'' \<and> i = targetId c)"
    and reg: "nrfRegistry w = Some r"
  shows "nrfRegistry (deleteConnection now cid w) =
           Some (deregisterNF now i ''NRF_CONNECTION_REMOVED'' r)"
    and "\<exists>n'. getNFById (dataStore (deleteConnection now cid w)) i = Some n' \<and>
           heartbeatIntervalId n' = None"
    and "getConnectionById (dataStore (deleteConnection now cid w)) cid = None"
proof -
  let ?w1 = "w \<lparr> nrfRegistry := Some (deregisterNF now i ''NRF_CONNECTION_REMOVED'' r) \<rparr>"
  let ?w2 = "stopNFHeartbeat i ?w1"
  have ids: "nf_id sn = sourceId c" "nf_id tn = targetId c"
    using src tgt by (simp_all add: getNFById_nf_id)
  have del: "deleteConnection now cid w = ?w2 \<lparr> dataStore := removeConnection cid (dataStore ?w2) \<rparr>"
    using conn src tgt one reg ids
    by (auto simp: deleteConnection_def Let_def)
  obtain n where n: "getNFById (dataStore ?w1) i = Some n"
    using one src tgt by auto
  note stop = stopNFHeartbeat_stopped [OF n]
  show "nrfRegistry (deleteConnection now cid w) =
           Some (deregisterNF now i ''NRF_CONNECTION_REMOVED'' r)"
    using stop by (simp add: del)
  show "\<exists>n'. getNFById (dataStore (deleteConnection now cid w)) i = Some n' \<and>
           heartbeatIntervalId n' = None"
    using stop by (simp add: del)
  show "getConnectionById (dataStore (deleteConnection now cid w)) cid = None"
    by (auto simp: del getConnectionById_def removeConnection_def find_None_iff)
qed

lemma find_append_fresh:
  "\<forall>x \<in> set xs. \<not> P x \<Longrightarrow> find P (xs @ ys) = find P ys"
  by (induction xs) auto

lemma getConnectionById_appended:
  assumes "cid \<notin> conn_id ` set old" and "connections ds = old @ [c]" and "conn_id c = cid"
  shows "getConnectionById ds cid = Some c"
proof -
  have "\<forall>x \<in> set old. \<not> conn_id x = cid" using assms(1) by auto
  then have "find (\<lambda>x. conn_id x = cid) (old @ [c]) = find (\<lambda>x. conn_id x = cid) [c]"
    by (rule find_append_fresh)
  then show ?thesis
    using assms(2,3) by (simp add: getConnectionById_def)
qed

lemma link_lifecycle:
  assumes src: "getNFById (dataStore w) s = Some sn" and tgt: "getNFById (dataStore w) t = Some tn"
    and ok: "fst (createConnection now cid s t m w) = Inr c"
    and one: "(nf_type tn = ''NRF'' \<and> nf_type sn \<noteq> ''NRF'' \<and> other = sn) \<or>
              (nf_type sn = ''NRF'' \<and> nf_type tn \<noteq> ''NRF'' \<and> other = tn)"
    and reg: "nrfRegistry w = Some r" and keys: "distinct (map fst (registry r))"
    and fresh: "cid \<notin> conn_id ` set (connections (dataStore w))"
    and w1: "w1 = snd (createConnection now cid s t m w)"
    and w2: "w2 = runRegistrationTimeout now2 (now + 1500, other) w1"
    and w3: "w3 = deleteConnection now3 cid w2"
  shows "(now + 1500, other) \<in> set (registrationTimeouts w1) \<and>
         (\<exists>r2 p. nrfRegistry w2 = Some r2 \<and> map_of (registry r2) (nf_id other) = Some p \<and>
                 nfStatus p = REGISTERED \<and>
                 p \<in> set (discoverNFs \<lparr> q_nfType = None, q_service = None \<rparr> r2)) \<and>
         (\<exists>n2. getNFById (dataStore w2) (nf_id other) = Some n2 \<and> heartbeatIntervalId n2 \<noteq> None) \<and>
         (\<exists>r3 p3. nrfRegistry w3 = Some r3 \<and> map_of (registry r3) (nf_id other) = Some p3 \<and>
                 nfStatus p3 = REMOVED \<and>
                 (\<forall>query. discoverNFs query r3 =
                    discoverNFs query (r3 \<lparr> registry := AList.delete (nf_id other) (registry r3) \<rparr>))) \<and>
         (\<exists>n3. getNFById (dataStore w3) (nf_id other) = Some n3 \<and> heartbeatIntervalId n3 = None) \<and>
         getConnectionById (dataStore w3) cid = None"
proof -
  let ?i = "nf_id other"
  note sch = createConnection_schedules [OF src tgt ok one]
  have c: "c = new_connection now cid s t m w sn tn" and ne: "s \<noteq> t"
    and w1': "w1 = w \<lparr> dataStore := addConnection c (dataStore w),
                       registrationTimeouts := registrationTimeouts w @ [(now + 1500, other)] \<rparr>"
    using sch w1 by simp_all
  have cf: "conn_id c = cid" "sourceId c = s" "targetId c = t"
    by (simp_all add: c new_connection_def)
  have ids: "nf_id sn = s" "nf_id tn = t"
    using src tgt by (simp_all add: getNFById_nf_id)
  have nfs1: "\<And>j. getNFById (dataStore w1) j = getNFById (dataStore w) j"
    by (simp add: w1')
  have conns1: "connections (dataStore w1) = connections (dataStore w) @ [c]"
    by (simp add: w1' addConnection_def)
  have pending: "(now + 1500, other) \<in> set (registrationTimeouts w1)"
    by (simp add: w1')
  have reg1: "nrfRegistry w1 = Some r" by (simp add: w1' reg)
  have other: "getNFById (dataStore w1) ?i = Some other" and oty: "nf_type other \<noteq> ''NRF''"
    using one src tgt ids by (auto simp: nfs1)
  have cin: "c \<in> set (connections (dataStore w1))" by (simp add: conns1)
  have link: "hasNRFConnection (dataStore w1) ?i"
  proof -
    have a: "sourceId c \<noteq> targetId c" using ne cf by simp
    have b: "getNFById (dataStore w1) (sourceId c) = Some sn"
      and d: "getNFById (dataStore w1) (targetId c) = Some tn"
      using src tgt cf by (simp_all add: nfs1)
    from one show ?thesis
    proof
      assume "nf_type tn = ''NRF'' \<and> nf_type sn \<noteq> ''NRF'' \<and> other = sn"
      then show ?thesis
        using hasNRFConnection_link(1) [OF cin a b d] ids cf by simp
    next
      assume "nf_type sn = ''NRF'' \<and> nf_type tn \<noteq> ''NRF'' \<and> other = tn"
      then show ?thesis
        using hasNRFConnection_link(2) [OF cin a b d] ids cf by simp
    qed
  qed
  note run = runRegistrationTimeout_registers [OF pending reg1 other oty link, of now2]
  obtain r2 p where r2: "nrfRegistry w2 = Some r2" and p: "map_of (registry r2) ?i = Some p"
      and ps: "nfStatus p = REGISTERED"
      and k2: "map fst (registry r2) =
                 map fst (registry (snd (registerNF now2 ?i (nfProfile_of other) r)))"
    using run(1) w2 by blast
  have d2: "distinct (map fst (registry r2))"
    using keys by (simp add: k2 registerNF_registry AList.distinct_update)
  have hb2: "\<exists>n2. getNFById (dataStore w2) ?i = Some n2 \<and> heartbeatIntervalId n2 \<noteq> None"
    using run(2) w2 by simp
  have conns2: "connections (dataStore w2) = connections (dataStore w) @ [c]"
    using run(3) w2 conns1 by simp
  have types2: "\<And>j. map_option nf_type (getNFById (dataStore w2) j)
                     = map_option nf_type (getNFById (dataStore w) j)"
    using run(4) w2 by (simp add: nfs1)
  have found: "getConnectionById (dataStore w2) cid = Some c"
    using fresh conns2 cf(1) by (rule getConnectionById_appended)
  obtain sn2 where sn2: "getNFById (dataStore w2) (sourceId c) = Some sn2"
      and snt: "nf_type sn2 = nf_type sn"
    using types2 [of s] src cf by (cases "getNFById (dataStore w2) s") auto
  obtain tn2 where tn2: "getNFById (dataStore w2) (targetId c) = Some tn2"
      and tnt: "nf_type tn2 = nf_type tn"
    using types2 [of t] tgt cf by (cases "getNFById (dataStore w2) t") auto
  have one2: "(nf_type tn2 = ''NRF'' \<and> nf_type sn2 \<noteq> ''NRF'' \<and> ?i = sourceId c) \<or>
              (nf_type sn2 = ''NRF'' \<and> nf_type tn2 \<noteq> ''NRF'' \<and> ?i = targetId c)"
    using one ids cf snt tnt by auto
  note del = deleteConnection_deregisters [OF found sn2 tn2 one2 r2, of now3]
  let ?r3 = "deregisterNF now3 ?i ''NRF_CONNECTION_REMOVED'' r2"
  let ?p3 = "deregistered now3 ''NRF_CONNECTION_REMOVED'' p"
  have r3: "nrfRegistry w3 = Some ?r3" using del(1) w3 by simp
  have p3: "map_of (registry ?r3) ?i = Some ?p3" using p by (simp add: map_of_deregisterNF)
  have s3: "nfStatus ?p3 = REMOVED" by (simp add: deregistered_def)
  have d3: "distinct (map fst (registry ?r3))" using d2 by (simp add: keys_deregisterNF)
  have gone: "\<forall>query. discoverNFs query ?r3 =
      discoverNFs query (?r3 \<lparr> registry := AList.delete ?i (registry ?r3) \<rparr>)"
    using discover_excludes [OF d3 p3] s3 by simp
  have seen: "p \<in> set (discoverNFs \<lparr> q_nfType = None, q_service = None \<rparr> r2)"
    using discover_includes [OF p ps] by simp
  have hb3: "\<exists>n3. getNFById (dataStore w3) ?i = Some n3 \<and> heartbeatIntervalId n3 = None"
    using del(2) w3 by simp
  have c3: "getConnectionById (dataStore w3) cid = None"
    using del(3) w3 by simp
  from pending r2 p ps seen hb2 r3 p3 s3 gone hb3 c3 show ?thesis by blast
qed



section \<open>Status moves, re-registration and the sweep in any registry\<close>

lemma one_op_status_moves:
  assumes "distinct (map fst (registry r))" and "map_of (registry r) i = Some p"
  shows "(\<forall>now opn p'. map_of (registry (apply_op now opn r)) i = Some p' \<longrightarrow>
            op_status_move opn i (nfStatus p) (nfStatus p') \<and>
            (spec_status_move (nfStatus p) (nfStatus p') \<or>
             (\<exists>reason. opn = Deregister i reason \<and> nfStatus p = REGISTERED \<and>
                        nfStatus p' = REMOVED) \<or>
             (registers i opn \<and> nfStatus p = REMOVED \<and> nfStatus p' = REGISTERED))) \<and>
         (\<forall>ops p'. nfStatus p = REMOVED \<longrightarrow> (\<forall>x \<in> set ops. \<not> registers i (snd x)) \<longrightarrow>
            map_of (registry (run_ops ops r)) i = Some p' \<longrightarrow> nfStatus p' = REMOVED)"
proof (intro conjI allI impI)
  fix now opn p'
  assume after: "map_of (registry (apply_op now opn r)) i = Some p'"
  show move: "op_status_move opn i (nfStatus p) (nfStatus p')"
    using assms after by (rule apply_op_status)
  show "spec_status_move (nfStatus p) (nfStatus p') \<or>
        (\<exists>reason. opn = Deregister i reason \<and> nfStatus p = REGISTERED \<and> nfStatus p' = REMOVED) \<or>
        (registers i opn \<and> nfStatus p = REMOVED \<and> nfStatus p' = REGISTERED)"
    using move
    by (cases opn; cases "nfStatus p"; cases "nfStatus p'")
       (auto simp: spec_status_move_def split: if_splits)
next
  fix ops p'
  assume "nfStatus p = REMOVED" and "\<forall>x \<in> set ops. \<not> registers i (snd x)"
    and after: "map_of (registry (run_ops ops r)) i = Some p'"
  then have "map_of (registry (run_ops ops r)) i = None \<or>
      (\<exists>q. map_of (registry (run_ops ops r)) i = Some q \<and> nfStatus q = REMOVED)"
    using assms by (intro removed_or_absent_run_ops) auto
  with after show "nfStatus p' = REMOVED" by simp
qed

lemma registerNF_overwrites:
  assumes "map_of (registry r) i = Some old" and "registeredAt old \<noteq> 0"
  shows "res_nfStatus (fst (registerNF now i inp r)) = REGISTERED \<and>
         (\<exists>p. map_of (registry (snd (registerNF now i inp r))) i = Some p \<and>
              registeredAt p = registeredAt old \<and>
              nfStatus p = REGISTERED \<and>
              nfInstanceId p = i \<and>
              nfType p = in_nfType inp \<and>
              nfName p = (case in_nfName inp of
                            None \<Rightarrow> in_nfType inp @ ''-'' @ slice_last 6 i
                          | Some n \<Rightarrow> n) \<and>
              ipAddress p = in_ipAddress inp \<and> port p = in_port inp \<and>
              httpProtocol p = in_httpProtocol inp \<and> services p = in_services inp \<and>
              priority p = in_priority inp \<and> capacity p = in_capacity inp \<and>
              load p = in_load inp \<and>
              lastHeartbeat p = now \<and> statusChangedAt p = now) \<and>
         map fst (registry (snd (registerNF now i inp r))) = map fst (registry r) \<and>
         (distinct (map fst (registry r)) \<longrightarrow>
            length (filter (\<lambda>e. fst e = i) (registry (snd (registerNF now i inp r)))) = 1)"
proof -
  let ?p = "spread_nfProfile inp (default_profile now r i inp (Some old))"
  have reg: "registry (snd (registerNF now i inp r)) = AList.update i ?p (registry r)"
    using assms(1) by (simp add: registerNF_registry)
  have key: "i \<in> set (map fst (registry r))"
    using assms(1) by (metis map_of_eq_None_iff option.distinct(1) set_map)
  have keys: "map fst (registry (snd (registerNF now i inp r))) = map fst (registry r)"
    using key by (simp add: reg AList.update_keys)
  have look: "map_of (registry (snd (registerNF now i inp r))) i = Some ?p"
    by (simp add: reg AList.update_conv')
  have fields: "registeredAt ?p = registeredAt old \<and> nfStatus ?p = REGISTERED \<and>
      nfInstanceId ?p = i \<and> nfType ?p = in_nfType inp \<and>
      nfName ?p = (case in_nfName inp of
                      None \<Rightarrow> in_nfType inp @ ''-'' @ slice_last 6 i | Some n \<Rightarrow> n) \<and>
      ipAddress ?p = in_ipAddress inp \<and> port ?p = in_port inp \<and>
      httpProtocol ?p = in_httpProtocol inp \<and> services ?p = in_services inp \<and>
      priority ?p = in_priority inp \<and> capacity ?p = in_capacity inp \<and>
      load ?p = in_load inp \<and> lastHeartbeat ?p = now \<and> statusChangedAt ?p = now"
    using assms(2)
    by (simp add: spread_nfProfile_def default_profile_def truthy_string_def split: option.splits)
  have one: "distinct (map fst (registry r)) \<longrightarrow>
      length (filter (\<lambda>e. fst e = i) (registry (snd (registerNF now i inp r)))) = 1"
  proof
    assume "distinct (map fst (registry r))"
    then have "distinct (map fst (registry (snd (registerNF now i inp r))))"
      by (simp add: keys)
    then show "length (filter (\<lambda>e. fst e = i) (registry (snd (registerNF now i inp r)))) = 1"
      using look by (rule one_entry_per_key)
  qed
  have res: "res_nfStatus (fst (registerNF now i inp r)) = REGISTERED"
    by (simp add: registerNF_def Let_def)
  from res look fields keys one show ?thesis by blast
qed

lemma sweep_on_profile:
  assumes "distinct (map fst (registry r))" and "map_of (registry r) i = Some p"
  shows "(nfStatus p = REGISTERED \<and> now - lastHeartbeat_or_registeredAt p > heartbeatTimeout r \<longrightarrow>
            map_of (registry (checkHeartbeatTimeouts now r)) i =
              Some (p \<lparr> nfStatus := UNAVAILABLE, statusChangedAt := now \<rparr>)) \<and>
         (nfStatus p = UNAVAILABLE \<and> now - lastHeartbeat_or_registeredAt p > heartbeatTimeout r \<and>
          now - statusChangedAt p > gracePeriod r \<longrightarrow>
            i \<in> set (sweep_toRemove now r) \<and>
            map_of (sweep_scan now r) i = Some p \<and>
            map_of (registry (checkHeartbeatTimeouts now r)) i =
              Some (deregistered now ''AUTOMATIC_HEARTBEAT_TIMEOUT'' p) \<and>
            deregistration_record_of now i ''AUTOMATIC_HEARTBEAT_TIMEOUT''
                (deregistered now ''AUTOMATIC_HEARTBEAT_TIMEOUT'' p)
              \<in> set (deregistrationHistory (checkHeartbeatTimeouts now r))) \<and>
         map fst (sweep_scan now r) = map fst (registry r) \<and>
         checkHeartbeatTimeouts now r =
           foldl (\<lambda>r' j. deregisterNF now j ''AUTOMATIC_HEARTBEAT_TIMEOUT'' r')
             (r \<lparr> registry := sweep_scan now r \<rparr>) (sweep_toRemove now r)"
proof (intro conjI impI)
  assume a: "nfStatus p = REGISTERED \<and> now - lastHeartbeat_or_registeredAt p > heartbeatTimeout r"
  then have "sweep_visit now r p = (p \<lparr> nfStatus := UNAVAILABLE, statusChangedAt := now \<rparr>, False)"
    by (simp add: sweep_visit_def Let_def)
  then show "map_of (registry (checkHeartbeatTimeouts now r)) i =
              Some (p \<lparr> nfStatus := UNAVAILABLE, statusChangedAt := now \<rparr>)"
    using assms by (simp add: map_of_checkHeartbeatTimeouts)
next
  assume b: "nfStatus p = UNAVAILABLE \<and> now - lastHeartbeat_or_registeredAt p > heartbeatTimeout r \<and>
          now - statusChangedAt p > gracePeriod r"
  then have v: "sweep_visit now r p = (p, True)"
    by (simp add: sweep_visit_def Let_def)
  show "i \<in> set (sweep_toRemove now r)"
    using v assms by (simp add: in_sweep_toRemove)
  show "map_of (sweep_scan now r) i = Some p"
    using v assms(2) by (simp add: map_of_sweep_scan)
  show "map_of (registry (checkHeartbeatTimeouts now r)) i =
              Some (deregistered now ''AUTOMATIC_HEARTBEAT_TIMEOUT'' p)"
    using v assms by (simp add: map_of_checkHeartbeatTimeouts)
  have "i \<in> set (sweep_toRemove now r)"
    using v assms by (simp add: in_sweep_toRemove)
  moreover have "map_of (registry (r \<lparr> registry := sweep_scan now r \<rparr>)) i = Some p"
    using v assms(2) by (simp add: map_of_sweep_scan)
  ultimately show "deregistration_record_of now i ''AUTOMATIC_HEARTBEAT_TIMEOUT''
                (deregistered now ''AUTOMATIC_HEARTBEAT_TIMEOUT'' p)
              \<in> set (deregistrationHistory (checkHeartbeatTimeouts now r))"
    unfolding checkHeartbeatTimeouts_def by (rule record_foldl_deregisterNF)
next
  show "map fst (sweep_scan now r) = map fst (registry r)"
    by (rule keys_sweep_scan)
next
  show "checkHeartbeatTimeouts now r =
           foldl (\<lambda>r' j. deregisterNF now j ''AUTOMATIC_HEARTBEAT_TIMEOUT'' r')
             (r \<lparr> registry := sweep_scan now r \<rparr>) (sweep_toRemove now r)"
    by (simp add: checkHeartbeatTimeouts_def)
qed

lemma registry_amf_reached:
  "registry_amf = run_ops [(1000, Register ''amf-1'' amf_profile_input)] new_NRFRegistry"
  by (simp add: registry_amf_def)

lemma registry_unavailable_reached:
  "registry_unavailable =
     run_ops [(1000, Register ''amf-1'' amf_profile_input), (130000, Sweep)] new_NRFRegistry"
  by (simp add: registry_unavailable_def registry_amf_def)

lemma registry_removed_reached:
  "registry_removed =
     run_ops [(1000, Register ''amf-1'' amf_profile_input),
              (3000, Deregister ''amf-1'' ''MANUAL'')] new_NRFRegistry"
  by (simp add: registry_removed_def registry_amf_def)


section \<open>The registry: discovery, renewal, deregistration\<close>

text \<open>
  C1. Whatever the query, \<open>discoverNFs\<close> returns only profiles whose status is
  \<open>REGISTERED\<close>; and for a type name \<open>T\<close> (a non-empty string: \<open>query.nfType && ...\<close> reads
  the empty string as no filter), the query \<open>{nfType: T}\<close> returns exactly the profiles of
  the registry that are \<open>REGISTERED\<close> and of type \<open>T\<close>, in the registry's order.
\<close>

theorem discoverNFs_registered_only:
  "(\<forall>p \<in> set (discoverNFs query r). nfStatus p = REGISTERED) \<and>
   (T \<noteq> [] \<longrightarrow>
      discoverNFs \<lparr> q_nfType = Some T, q_service = None \<rparr> r
        = map snd (filter (\<lambda>(i, p). nfStatus p = REGISTERED \<and> nfType p = T) (registry r)))"
proof (intro conjI ballI impI)
  fix p assume "p \<in> set (discoverNFs query r)"
  then have "discover_match query p"
    by (auto simp: discoverNFs_filter)
  then show "nfStatus p = REGISTERED"
    by (simp add: discover_match_def split: if_splits)
next
  assume "T \<noteq> []"
  then show "discoverNFs \<lparr> q_nfType = Some T, q_service = None \<rparr> r
        = map snd (filter (\<lambda>(i, p). nfStatus p = REGISTERED \<and> nfType p = T) (registry r))"
    by (simp add: discoverNFs_filter discover_match_type_only)
qed

theorem discoverNFs_registered_only_witness:
  "''AMF'' \<noteq> [] \<and>
   discoverNFs \<lparr> q_nfType = Some ''AMF'', q_service = None \<rparr> registry_amf_smf = [profile_amf] \<and>
   profile_amf \<in> set (discoverNFs \<lparr> q_nfType = Some ''AMF'', q_service = None \<rparr> registry_amf_smf) \<and>
   nfStatus profile_amf = REGISTERED \<and>
   discoverNFs \<lparr> q_nfType = Some ''AMF'', q_service = None \<rparr> registry_unavailable = []"
proof -
  have entries: "map fst (registry registry_amf_smf) = [''amf-1'', ''smf-1''] \<and>
      map_of (registry registry_amf_smf) ''amf-1'' = Some profile_amf \<and>
      map_option nfType (map_of (registry registry_amf_smf) ''smf-1'') = Some ''SMF''"
    by (simp add: registry_amf_smf_def registerNF_registry registry_amf_entries
        spread_nfProfile_def smf_profile_input_def)
  then obtain q where q: "registry registry_amf_smf = [(''amf-1'', profile_amf), (''smf-1'', q)]"
      and qt: "nfType q = ''SMF''"
    by (cases "registry registry_amf_smf"; cases "tl (registry registry_amf_smf)") auto
  have a: "discoverNFs \<lparr> q_nfType = Some ''AMF'', q_service = None \<rparr> registry_amf_smf = [profile_amf]"
    using discoverNFs_registered_only [of "\<lparr> q_nfType = Some ''AMF'', q_service = None \<rparr>"
        registry_amf_smf "''AMF''"]
    by (simp add: q qt profile_amf_fields)
  have b: "discoverNFs \<lparr> q_nfType = Some ''AMF'', q_service = None \<rparr> registry_unavailable = []"
    using discoverNFs_registered_only [of "\<lparr> q_nfType = Some ''AMF'', q_service = None \<rparr>"
        registry_unavailable "''AMF''"]
    by (simp add: registry_unavailable_entries profile_unavailable_fields)
  show ?thesis
    using a b by (simp add: profile_amf_fields)
qed

text \<open>
  C7. \<open>updateHeartbeat\<close> returns \<open>false\<close> exactly when the id is not in the registry, and
  then changes nothing. For an id that is present it returns \<open>true\<close> and sets the
  profile's \<open>lastHeartbeat\<close> to the time of the call; a profile that was \<open>UNAVAILABLE\<close> also
  becomes \<open>REGISTERED\<close> with \<open>statusChangedAt\<close> set to that time, and a profile in any other
  status keeps its status and its \<open>statusChangedAt\<close>.
\<close>

theorem updateHeartbeat_result:
  "(fst (updateHeartbeat now i r) = False \<longleftrightarrow> map_of (registry r) i = None) \<and>
   (map_of (registry r) i = None \<longrightarrow> snd (updateHeartbeat now i r) = r) \<and>
   (\<forall>p. map_of (registry r) i = Some p \<longrightarrow>
      map_of (registry (snd (updateHeartbeat now i r))) i =
        Some (if nfStatus p = UNAVAILABLE
              then p \<lparr> lastHeartbeat := now, nfStatus := REGISTERED, statusChangedAt := now \<rparr>
              else p \<lparr> lastHeartbeat := now \<rparr>))"
proof (cases "map_of (registry r) i")
  case None
  then show ?thesis by (simp add: updateHeartbeat_unknown)
next
  case (Some p)
  then show ?thesis by (simp add: updateHeartbeat_known AList.update_conv')
qed

theorem updateHeartbeat_result_witness:
  "map_of (registry registry_unavailable) ''amf-1'' = Some profile_unavailable \<and>
   nfStatus profile_unavailable = UNAVAILABLE \<and>
   fst (updateHeartbeat 140000 ''amf-1'' registry_unavailable) = True \<and>
   map_of (registry (snd (updateHeartbeat 140000 ''amf-1'' registry_unavailable))) ''amf-1'' =
     Some (profile_unavailable
             \<lparr> lastHeartbeat := 140000, nfStatus := REGISTERED, statusChangedAt := 140000 \<rparr>) \<and>
   map_of (registry registry_unavailable) ''smf-1'' = None \<and>
   fst (updateHeartbeat 140000 ''smf-1'' registry_unavailable) = False \<and>
   snd (updateHeartbeat 140000 ''smf-1'' registry_unavailable) = registry_unavailable"
  using updateHeartbeat_result [of 140000 "''amf-1''" registry_unavailable]
    updateHeartbeat_result [of 140000 "''smf-1''" registry_unavailable]
  by (simp add: registry_unavailable_entries profile_unavailable_fields)

text \<open>
  C9. \<open>deregisterNF\<close> with an id that is not in the registry returns the registry as it
  was: the profile map, both histories, both latest-record maps and the pending removals
  are unchanged. With an id that is present it sets the profile's status to \<open>REMOVED\<close>,
  stamps \<open>deregisteredAt\<close> and \<open>deregistrationReason\<close>, appends exactly one record to the
  deregistration history and stores that record as the latest one for the id, leaves the
  registration records and every other profile as they were, and schedules one removal
  callback 5000 ms later; when that callback runs, the id is no longer in the profile map.
\<close>

theorem deregisterNF_effect:
  "(map_of (registry r) i = None \<longrightarrow> deregisterNF now i reason r = r) \<and>
   (\<forall>p. map_of (registry r) i = Some p \<longrightarrow>
      map_of (registry (deregisterNF now i reason r)) i = Some (deregistered now reason p) \<and>
      nfStatus (deregistered now reason p) = REMOVED \<and>
      deregisteredAt (deregistered now reason p) = Some now \<and>
      deregistrationReason (deregistered now reason p) = Some reason \<and>
      (\<forall>j. j \<noteq> i \<longrightarrow>
         map_of (registry (deregisterNF now i reason r)) j = map_of (registry r) j) \<and>
      deregistrationHistory (deregisterNF now i reason r) =
        deregistrationHistory r @
          [deregistration_record_of now i reason (deregistered now reason p)] \<and>
      map_of (deregistrationMessages (deregisterNF now i reason r)) i =
        Some (deregistration_record_of now i reason (deregistered now reason p)) \<and>
      dereg_nfInstanceId (deregistration_record_of now i reason (deregistered now reason p)) = i \<and>
      dreq_reason (dereg_request
        (deregistration_record_of now i reason (deregistered now reason p))) = reason \<and>
      registrationHistory (deregisterNF now i reason r) = registrationHistory r \<and>
      registrationMessages (deregisterNF now i reason r) = registrationMessages r \<and>
      purgeTimeouts (deregisterNF now i reason r) = purgeTimeouts r @ [(now + 5000, i)] \<and>
      map_of (registry (runPurgeTimeout (now + 5000, i) (deregisterNF now i reason r))) i = None)"
proof (cases "map_of (registry r) i")
  case None
  then show ?thesis by (simp add: deregisterNF_unknown)
next
  case (Some p)
  then show ?thesis
    by (simp add: deregisterNF_known AList.update_conv' AList.delete_conv'
        runPurgeTimeout_def deregistration_record_of_def deregistered_def)
qed

theorem deregisterNF_effect_witness:
  "map_of (registry registry_amf) ''amf-1'' = Some profile_amf \<and>
   map_option nfStatus (map_of (registry (deregisterNF 3000 ''amf-1'' ''MANUAL'' registry_amf)) ''amf-1'')
     = Some REMOVED \<and>
   length (deregistrationHistory (deregisterNF 3000 ''amf-1'' ''MANUAL'' registry_amf)) = 1 \<and>
   purgeTimeouts (deregisterNF 3000 ''amf-1'' ''MANUAL'' registry_amf) = [(8000, ''amf-1'')] \<and>
   map_of (registry (runPurgeTimeout (8000, ''amf-1'')
             (deregisterNF 3000 ''amf-1'' ''MANUAL'' registry_amf))) ''amf-1'' = None \<and>
   map_of (registry registry_amf) ''smf-1'' = None \<and>
   deregisterNF 3000 ''smf-1'' ''MANUAL'' registry_amf = registry_amf"
proof -
  have h: "map_of (registry registry_amf) ''amf-1'' = Some profile_amf"
    by (simp add: registry_amf_entries)
  have e: "deregistrationHistory registry_amf = [] \<and> purgeTimeouts registry_amf = []"
    by (simp add: registry_amf_def registerNF_def Let_def new_NRFRegistry_def)
  show ?thesis
    using deregisterNF_effect [of registry_amf "''amf-1''" 3000 "''MANUAL''"]
      deregisterNF_effect [of registry_amf "''smf-1''" 3000 "''MANUAL''"] h e
    by (simp add: registry_amf_entries)
qed

text \<open>
  C10. A profile that is \<open>REMOVED\<close> and still in the profile map: \<open>updateHeartbeat\<close> for its
  id returns \<open>true\<close> and sets \<open>lastHeartbeat\<close>, and the status stays \<open>REMOVED\<close>, also after
  any number of heartbeats; \<open>registerNF\<close> for the id makes the status \<open>REGISTERED\<close>.
\<close>

theorem updateHeartbeat_removed:
  assumes "map_of (registry r) i = Some p" and "nfStatus p = REMOVED"
  shows "fst (updateHeartbeat now i r) = True \<and>
         map_of (registry (snd (updateHeartbeat now i r))) i = Some (p \<lparr> lastHeartbeat := now \<rparr>) \<and>
         nfStatus (p \<lparr> lastHeartbeat := now \<rparr>) = REMOVED \<and>
         (\<exists>p'. map_of (registry (run_ops (map (\<lambda>t. (t, RenewHeartbeat i)) ts) r)) i = Some p' \<and>
               nfStatus p' = REMOVED) \<and>
         map_option nfStatus (map_of (registry (snd (registerNF now i nfProfile r))) i)
           = Some REGISTERED"
proof -
  have one: "fst (updateHeartbeat now i r) = True \<and>
      map_of (registry (snd (updateHeartbeat now i r))) i = Some (p \<lparr> lastHeartbeat := now \<rparr>)"
    using assms by (simp add: updateHeartbeat_known AList.update_conv')
  have many: "\<exists>p'. map_of (registry (run_ops (map (\<lambda>t. (t, RenewHeartbeat i)) ts) r)) i = Some p' \<and>
               nfStatus p' = REMOVED"
    using assms
  proof (induction ts arbitrary: r p)
    case Nil
    then show ?case by simp
  next
    case (Cons t ts)
    have "map_of (registry (snd (updateHeartbeat t i r))) i = Some (p \<lparr> lastHeartbeat := t \<rparr>)"
      using Cons.prems by (simp add: updateHeartbeat_known AList.update_conv')
    moreover have "nfStatus (p \<lparr> lastHeartbeat := t \<rparr>) = REMOVED"
      using Cons.prems by simp
    ultimately show ?case
      using Cons.IH [of "snd (updateHeartbeat t i r)" "p \<lparr> lastHeartbeat := t \<rparr>"] by simp
  qed
  have reg: "map_option nfStatus (map_of (registry (snd (registerNF now i nfProfile r))) i)
           = Some REGISTERED"
    by (simp add: map_of_registerNF)
  from one many reg assms(2) show ?thesis by simp
qed

theorem updateHeartbeat_removed_witness:
  "map_of (registry registry_removed) ''amf-1'' = Some (deregistered 3000 ''MANUAL'' profile_amf) \<and>
   nfStatus (deregistered 3000 ''MANUAL'' profile_amf) = REMOVED \<and>
   fst (updateHeartbeat 4000 ''amf-1'' registry_removed) = True \<and>
   map_option nfStatus (map_of (registry (snd (updateHeartbeat 4000 ''amf-1'' registry_removed))) ''amf-1'')
     = Some REMOVED \<and>
   map_option lastHeartbeat (map_of (registry (snd (updateHeartbeat 4000 ''amf-1'' registry_removed))) ''amf-1'')
     = Some 4000 \<and>
   map_option nfStatus
     (map_of (registry (snd (registerNF 4000 ''amf-1'' amf_profile_input registry_removed))) ''amf-1'')
     = Some REGISTERED"
proof -
  have h1: "map_of (registry registry_removed) ''amf-1'' = Some (deregistered 3000 ''MANUAL'' profile_amf)"
    by (simp add: registry_removed_entries)
  have h2: "nfStatus (deregistered 3000 ''MANUAL'' profile_amf) = REMOVED"
    by (simp add: deregistered_def)
  show ?thesis
    using updateHeartbeat_removed [OF h1 h2, of 4000 "[]" amf_profile_input] h1 h2
    by simp
qed

section \<open>The registry: status moves and re-registration\<close>

text \<open>
  C2 as the specification states it allows only the moves of \<open>spec_status_move\<close> (and the
  fresh registration that leaves \<open>REMOVED\<close>). A manual deregistration of the \<open>REGISTERED\<close>
  profile \<open>amf-1\<close> moves it to \<open>REMOVED\<close> at once.
\<close>

theorem deregister_registered_counterexample:
  "map_option nfStatus (map_of (registry registry_amf) ''amf-1'') = Some REGISTERED \<and>
   map_option nfStatus
     (map_of (registry (apply_op 3000 (Deregister ''amf-1'' ''MANUAL'') registry_amf)) ''amf-1'')
       = Some REMOVED \<and>
   \<not> spec_status_move REGISTERED REMOVED"
  by (simp add: map_of_deregisterNF registry_amf_entries profile_amf_fields deregistered_def
      spec_status_move_def)


text \<open>
  C2, as the code has it. In a registry that a sequence of operations has produced from
  a fresh one, one more operation moves the status of a profile only as
  \<open>op_status_move\<close> says: the sweep from \<open>REGISTERED\<close> to \<open>UNAVAILABLE\<close> or from \<open>UNAVAILABLE\<close>
  to \<open>REMOVED\<close>, a heartbeat from \<open>UNAVAILABLE\<close> to \<open>REGISTERED\<close>, \<open>deregisterNF\<close> from any
  status to \<open>REMOVED\<close>, \<open>registerNF\<close> from any status to \<open>REGISTERED\<close>. So every move is one
  the specification names, or a deregistration of a \<open>REGISTERED\<close> profile, or a
  registration of a \<open>REMOVED\<close> one. And \<open>REMOVED\<close> is final: after any further sequence of
  operations that does not register the id again, the profile is \<open>REMOVED\<close> if it is
  still in the map.
\<close>

theorem status_moves:
  assumes "r = run_ops ops0 new_NRFRegistry" and "map_of (registry r) i = Some p"
  shows "(\<forall>now opn p'. map_of (registry (apply_op now opn r)) i = Some p' \<longrightarrow>
            op_status_move opn i (nfStatus p) (nfStatus p') \<and>
            (spec_status_move (nfStatus p) (nfStatus p') \<or>
             (\<exists>reason. opn = Deregister i reason \<and> nfStatus p = REGISTERED \<and>
                        nfStatus p' = REMOVED) \<or>
             (registers i opn \<and> nfStatus p = REMOVED \<and> nfStatus p' = REGISTERED))) \<and>
         (\<forall>ops p'. nfStatus p = REMOVED \<longrightarrow> (\<forall>x \<in> set ops. \<not> registers i (snd x)) \<longrightarrow>
            map_of (registry (run_ops ops r)) i = Some p' \<longrightarrow> nfStatus p' = REMOVED)"
proof -
  have "distinct (map fst (registry r))"
    unfolding assms(1) by (rule distinct_reachable)
  then show ?thesis
    using assms(2) by (rule one_op_status_moves)
qed

theorem status_moves_witness:
  "registry_removed =
     run_ops [(1000, Register ''amf-1'' amf_profile_input),
              (3000, Deregister ''amf-1'' ''MANUAL'')] new_NRFRegistry \<and>
   map_of (registry registry_removed) ''amf-1'' = Some (deregistered 3000 ''MANUAL'' profile_amf) \<and>
   nfStatus (deregistered 3000 ''MANUAL'' profile_amf) = REMOVED \<and>
   map_option nfStatus
     (map_of (registry (run_ops [(4000, RenewHeartbeat ''amf-1''), (130000, Sweep)] registry_removed))
        ''amf-1'') = Some REMOVED \<and>
   map_option nfStatus
     (map_of (registry (apply_op 4000 (Register ''amf-1'' amf_profile_input) registry_removed))
        ''amf-1'') = Some REGISTERED \<and>
   op_status_move (Register ''amf-1'' amf_profile_input) ''amf-1'' REMOVED REGISTERED"
proof -
  let ?ops = "[(4000, RenewHeartbeat ''amf-1''), (130000, Sweep)]"
  note reached = registry_removed_reached
  have m: "map_of (registry registry_removed) ''amf-1'' = Some (deregistered 3000 ''MANUAL'' profile_amf)"
    by (simp add: registry_removed_entries)
  have s: "nfStatus (deregistered 3000 ''MANUAL'' profile_amf) = REMOVED"
    by (simp add: deregistered_def)
  have keys: "map fst (registry (run_ops ?ops registry_removed)) = [''amf-1'']"
    by (simp add: keys_checkHeartbeatTimeouts keys_updateHeartbeat registry_removed_entries)
  then obtain q where q: "map_of (registry (run_ops ?ops registry_removed)) ''amf-1'' = Some q"
    by (cases "registry (run_ops ?ops registry_removed)") auto
  have nr: "\<forall>x \<in> set ?ops. \<not> registers ''amf-1'' (snd x)"
    by simp
  have a: "nfStatus q = REMOVED"
    using status_moves [OF reached m] s nr q by blast
  have b: "map_option nfStatus
     (map_of (registry (apply_op 4000 (Register ''amf-1'' amf_profile_input) registry_removed))
        ''amf-1'') = Some REGISTERED"
    by (simp add: map_of_registerNF)
  from reached m s a q b show ?thesis by simp
qed

text \<open>
  C3. In a registry that a sequence of operations with positive clock readings has
  produced from a fresh one, a second \<open>registerNF\<close> under an id that is in the registry
  does not reject: it answers \<open>REGISTERED\<close>, and the profile stored under the id
  afterwards has the fields of the new argument, the status \<open>REGISTERED\<close>, and the
  \<open>registeredAt\<close> of the profile it replaces. The map has the same keys in the same order
  as before, and the id has exactly one entry.
\<close>

theorem registerNF_again:
  assumes "positive_clock ops" and "r = run_ops ops new_NRFRegistry"
    and "map_of (registry r) i = Some old"
  shows "res_nfStatus (fst (registerNF now i inp r)) = REGISTERED \<and>
         (\<exists>p. map_of (registry (snd (registerNF now i inp r))) i = Some p \<and>
              registeredAt p = registeredAt old \<and>
              nfStatus p = REGISTERED \<and>
              nfInstanceId p = i \<and>
              nfType p = in_nfType inp \<and>
              nfName p = (case in_nfName inp of
                            None \<Rightarrow> in_nfType inp @ ''-'' @ slice_last 6 i
                          | Some n \<Rightarrow> n) \<and>
              ipAddress p = in_ipAddress inp \<and> port p = in_port inp \<and>
              httpProtocol p = in_httpProtocol inp \<and> services p = in_services inp \<and>
              priority p = in_priority inp \<and> capacity p = in_capacity inp \<and>
              load p = in_load inp \<and>
              lastHeartbeat p = now \<and> statusChangedAt p = now) \<and>
         map fst (registry (snd (registerNF now i inp r))) = map fst (registry r) \<and>
         length (filter (\<lambda>e. fst e = i) (registry (snd (registerNF now i inp r)))) = 1"
proof -
  have inv: "registry_inv r"
    unfolding assms(2) using assms(1) by (rule reachable_registry_inv)
  then have t: "registeredAt old \<noteq> 0" and d: "distinct (map fst (registry r))"
    using assms(3) by (auto simp: registry_inv_def)
  from registerNF_overwrites [OF assms(3) t, of now inp] d show ?thesis
    by blast
qed

theorem registerNF_again_witness:
  "positive_clock [(1000, Register ''amf-1'' amf_profile_input)] \<and>
   registry_amf = run_ops [(1000, Register ''amf-1'' amf_profile_input)] new_NRFRegistry \<and>
   map_of (registry registry_amf) ''amf-1'' = Some profile_amf \<and>
   registeredAt profile_amf = 1000 \<and>
   map_option registeredAt
     (map_of (registry (snd (registerNF 5000 ''amf-1'' smf_profile_input registry_amf))) ''amf-1'')
     = Some 1000 \<and>
   map_option nfType
     (map_of (registry (snd (registerNF 5000 ''amf-1'' smf_profile_input registry_amf))) ''amf-1'')
     = Some ''SMF'' \<and>
   map_option nfName
     (map_of (registry (snd (registerNF 5000 ''amf-1'' smf_profile_input registry_amf))) ''amf-1'')
     = Some ''SMF-amf-1'' \<and>
   length (registry (snd (registerNF 5000 ''amf-1'' smf_profile_input registry_amf))) = 1"
proof -
  have h0: "positive_clock [(1000, Register ''amf-1'' amf_profile_input)]"
    by (simp add: positive_clock_def)
  note h1 = registry_amf_reached
  have h2: "map_of (registry registry_amf) ''amf-1'' = Some profile_amf"
    by (simp add: registry_amf_entries)
  obtain p where p: "map_of (registry (snd (registerNF 5000 ''amf-1'' smf_profile_input registry_amf)))
        ''amf-1'' = Some p"
      and f: "registeredAt p = registeredAt profile_amf" "nfType p = in_nfType smf_profile_input"
        "nfName p = (case in_nfName smf_profile_input of
                       None \<Rightarrow> in_nfType smf_profile_input @ ''-'' @ slice_last 6 ''amf-1''
                     | Some n \<Rightarrow> n)"
      and k: "map fst (registry (snd (registerNF 5000 ''amf-1'' smf_profile_input registry_amf)))
        = map fst (registry registry_amf)"
    using registerNF_again [OF h0 h1 h2, of 5000 smf_profile_input] by blast
  have l: "length (registry (snd (registerNF 5000 ''amf-1'' smf_profile_input registry_amf))) = 1"
    using arg_cong [OF k, of length] by (simp add: registry_amf_entries)
  show ?thesis
    using h0 h1 h2 p f l
    by (simp add: profile_amf_fields smf_profile_input_def slice_last_def)
qed

section \<open>The registry: the heartbeat sweep\<close>

text \<open>
  C5, as the code has it. In a registry that a sequence of operations with positive
  clock readings has produced from a fresh one, take a profile that a pass of
  \<open>checkHeartbeatTimeouts\<close> visits. If it is \<open>REGISTERED\<close> and the time since its
  \<open>lastHeartbeat\<close> is above the heartbeat timeout, it becomes \<open>UNAVAILABLE\<close> with
  \<open>statusChangedAt\<close> set to the time of the pass. If it is \<open>UNAVAILABLE\<close> and the time since
  \<open>statusChangedAt\<close> is above the grace period, it is collected during the scan, which
  leaves it untouched, and is deregistered once the scan is over, with the reason
  \<open>AUTOMATIC_HEARTBEAT_TIMEOUT\<close>. The scan removes no entry, and the pass is the scan
  followed by the deregistration of the collected ids.
\<close>

theorem checkHeartbeatTimeouts_profile:
  assumes "positive_clock ops" and "r = run_ops ops new_NRFRegistry"
    and "map_of (registry r) i = Some p"
  shows "(nfStatus p = REGISTERED \<and> now - lastHeartbeat p > heartbeatTimeout r \<longrightarrow>
            map_of (registry (checkHeartbeatTimeouts now r)) i =
              Some (p \<lparr> nfStatus := UNAVAILABLE, statusChangedAt := now \<rparr>)) \<and>
         (nfStatus p = UNAVAILABLE \<and> now - statusChangedAt p > gracePeriod r \<longrightarrow>
            i \<in> set (sweep_toRemove now r) \<and>
            map_of (sweep_scan now r) i = Some p \<and>
            map_of (registry (checkHeartbeatTimeouts now r)) i =
              Some (deregistered now ''AUTOMATIC_HEARTBEAT_TIMEOUT'' p) \<and>
            deregistration_record_of now i ''AUTOMATIC_HEARTBEAT_TIMEOUT''
                (deregistered now ''AUTOMATIC_HEARTBEAT_TIMEOUT'' p)
              \<in> set (deregistrationHistory (checkHeartbeatTimeouts now r))) \<and>
         map fst (sweep_scan now r) = map fst (registry r) \<and>
         checkHeartbeatTimeouts now r =
           foldl (\<lambda>r' j. deregisterNF now j ''AUTOMATIC_HEARTBEAT_TIMEOUT'' r')
             (r \<lparr> registry := sweep_scan now r \<rparr>) (sweep_toRemove now r)"
proof -
  have inv: "registry_inv r"
    unfolding assms(2) using assms(1) by (rule reachable_registry_inv)
  then have d: "distinct (map fst (registry r))" and g: "0 \<le> gracePeriod r"
    and hb: "lastHeartbeat p \<noteq> 0"
    and un: "nfStatus p = UNAVAILABLE \<longrightarrow> lastHeartbeat p + heartbeatTimeout r < statusChangedAt p"
    using assms(3) by (auto simp: registry_inv_def)
  have eff: "lastHeartbeat_or_registeredAt p = lastHeartbeat p"
    using hb by (simp add: lastHeartbeat_or_registeredAt_def)
  have late: "nfStatus p = UNAVAILABLE \<and> now - statusChangedAt p > gracePeriod r \<longrightarrow>
      now - lastHeartbeat p > heartbeatTimeout r"
    using un g by auto
  from sweep_on_profile [OF d assms(3), of now, unfolded eff] late show ?thesis
    by blast
qed

theorem checkHeartbeatTimeouts_profile_witness:
  "positive_clock [(1000, Register ''amf-1'' amf_profile_input)] \<and>
   registry_amf = run_ops [(1000, Register ''amf-1'' amf_profile_input)] new_NRFRegistry \<and>
   map_of (registry registry_amf) ''amf-1'' = Some profile_amf \<and>
   nfStatus profile_amf = REGISTERED \<and>
   130000 - lastHeartbeat profile_amf > heartbeatTimeout registry_amf \<and>
   map_of (registry (checkHeartbeatTimeouts 130000 registry_amf)) ''amf-1'' =
     Some (profile_amf \<lparr> nfStatus := UNAVAILABLE, statusChangedAt := 130000 \<rparr>) \<and>
   positive_clock [(1000, Register ''amf-1'' amf_profile_input), (130000, Sweep)] \<and>
   registry_unavailable =
     run_ops [(1000, Register ''amf-1'' amf_profile_input), (130000, Sweep)] new_NRFRegistry \<and>
   map_of (registry registry_unavailable) ''amf-1'' = Some profile_unavailable \<and>
   nfStatus profile_unavailable = UNAVAILABLE \<and>
   170000 - statusChangedAt profile_unavailable > gracePeriod registry_unavailable \<and>
   map_of (registry (checkHeartbeatTimeouts 170000 registry_unavailable)) ''amf-1'' =
     Some (deregistered 170000 ''AUTOMATIC_HEARTBEAT_TIMEOUT'' profile_unavailable)"
proof -
  have p1: "positive_clock [(1000, Register ''amf-1'' amf_profile_input)]"
    and p2: "positive_clock [(1000, Register ''amf-1'' amf_profile_input), (130000, Sweep)]"
    by (simp_all add: positive_clock_def)
  note e1 = registry_amf_reached and e2 = registry_unavailable_reached
  have m1: "map_of (registry registry_amf) ''amf-1'' = Some profile_amf"
    by (simp add: registry_amf_entries)
  have m2: "map_of (registry registry_unavailable) ''amf-1'' = Some profile_unavailable"
    by (simp add: registry_unavailable_entries)
  have c1: "nfStatus profile_amf = REGISTERED \<and>
      130000 - lastHeartbeat profile_amf > heartbeatTimeout registry_amf"
    by (simp add: profile_amf_fields registry_amf_config)
  have c2: "nfStatus profile_unavailable = UNAVAILABLE \<and>
      170000 - statusChangedAt profile_unavailable > gracePeriod registry_unavailable"
    by (simp add: profile_unavailable_fields registry_unavailable_config)
  have r1: "map_of (registry (checkHeartbeatTimeouts 130000 registry_amf)) ''amf-1'' =
      Some (profile_amf \<lparr> nfStatus := UNAVAILABLE, statusChangedAt := 130000 \<rparr>)"
    using checkHeartbeatTimeouts_profile [OF p1 e1 m1, of 130000] c1 by blast
  have r2: "map_of (registry (checkHeartbeatTimeouts 170000 registry_unavailable)) ''amf-1'' =
      Some (deregistered 170000 ''AUTOMATIC_HEARTBEAT_TIMEOUT'' profile_unavailable)"
    using checkHeartbeatTimeouts_profile [OF p2 e2 m2, of 170000] c2 by blast
  from p1 e1 m1 c1 r1 p2 e2 m2 c2 r2 show ?thesis by blast
qed

text \<open>
  C5 as the specification states it names the reason \<open>HEARTBEAT_TIMEOUT\<close>. The profile of
  \<open>amf-1\<close>, \<open>UNAVAILABLE\<close> since 130000, is deregistered by the pass at 170000 with another
  reason.
\<close>

theorem checkHeartbeatTimeouts_reason_counterexample:
  "map_option nfStatus (map_of (registry registry_unavailable) ''amf-1'') = Some UNAVAILABLE \<and>
   170000 - statusChangedAt profile_unavailable > gracePeriod registry_unavailable \<and>
   map_option nfStatus
     (map_of (registry (checkHeartbeatTimeouts 170000 registry_unavailable)) ''amf-1'')
       = Some REMOVED \<and>
   map_option deregistrationReason
     (map_of (registry (checkHeartbeatTimeouts 170000 registry_unavailable)) ''amf-1'')
       = Some (Some ''AUTOMATIC_HEARTBEAT_TIMEOUT'') \<and>
   map_option deregistrationReason
     (map_of (registry (checkHeartbeatTimeouts 170000 registry_unavailable)) ''amf-1'')
       \<noteq> Some (Some ''HEARTBEAT_TIMEOUT'')"
proof -
  have "sweep_visit 170000 registry_unavailable profile_unavailable = (profile_unavailable, True)"
    by (simp add: sweep_visit_def Let_def profile_unavailable_fields registry_unavailable_config
        lastHeartbeat_or_registeredAt_def)
  then have "map_of (registry (checkHeartbeatTimeouts 170000 registry_unavailable)) ''amf-1'' =
      Some (deregistered 170000 ''AUTOMATIC_HEARTBEAT_TIMEOUT'' profile_unavailable)"
    by (simp add: map_of_checkHeartbeatTimeouts registry_unavailable_entries)
  then show ?thesis
    by (simp add: deregistered_def registry_unavailable_entries profile_unavailable_fields
        registry_unavailable_config)
qed


section \<open>The connection manager: admission of links\<close>

text \<open>
  C8. \<open>isConnectionValid\<close> gives the same verdict for a pair of types in either order,
  and it is the lookup of the table in both orders: one of the two types lists the other.
  So \<open>createConnection\<close> from \<open>s\<close> to \<open>t\<close> is rejected exactly when \<open>createConnection\<close> from
  \<open>t\<close> to \<open>s\<close> is, in the same state.
\<close>

theorem isConnectionValid_symmetric:
  "isConnectionValid a b = isConnectionValid b a \<and>
   (isConnectionValid a b \<longleftrightarrow>
      (\<exists>l. validConnections a = Some l \<and> b \<in> set l) \<or>
      (\<exists>l. validConnections b = Some l \<and> a \<in> set l)) \<and>
   isl (fst (createConnection now cid s t m w)) = isl (fst (createConnection now' cid' t s m' w))"
proof (intro conjI)
  show "isConnectionValid a b = isConnectionValid b a"
    by (rule isConnectionValid_commute)
  show "isConnectionValid a b \<longleftrightarrow>
      (\<exists>l. validConnections a = Some l \<and> b \<in> set l) \<or>
      (\<exists>l. validConnections b = Some l \<and> a \<in> set l)"
    by (rule isConnectionValid_iff)
  show "isl (fst (createConnection now cid s t m w)) = isl (fst (createConnection now' cid' t s m' w))"
    unfolding createConnection_verdict
    by (metis isConnectionValid_commute)
qed

theorem isConnectionValid_symmetric_witness:
  "isConnectionValid ''NRF'' ''AMF'' \<and> isConnectionValid ''AMF'' ''NRF'' \<and>
   isConnectionValid ''ext-dn'' ''UPF'' \<and> isConnectionValid ''UPF'' ''ext-dn'' \<and>
   validConnections ''UPF'' = Some [''NRF'', ''SMF'', ''gNB''] \<and>
   \<not> isl (fst (createConnection 1000 ''conn-1'' ''amf-1'' ''nrf-1'' True lab_world)) \<and>
   \<not> isl (fst (createConnection 2000 ''conn-2'' ''nrf-1'' ''amf-1'' False lab_world))"
proof -
  note v1 = isConnectionValid_symmetric [of "''NRF''" "''AMF''" 1000 "''conn-1''" "''amf-1''"
      "''nrf-1''" True lab_world 2000 "''conn-2''" False]
  note v2 = isConnectionValid_symmetric [of "''ext-dn''" "''UPF''" 1000 "''conn-1''" "''amf-1''"
      "''nrf-1''" True lab_world 2000 "''conn-2''" False]
  have a: "isConnectionValid ''NRF'' ''AMF''" and e: "isConnectionValid ''ext-dn'' ''UPF''"
    and u: "validConnections ''UPF'' = Some [''NRF'', ''SMF'', ''gNB'']"
    by (simp_all add: isConnectionValid_def validConnections_def)
  have b: "isConnectionValid ''AMF'' ''NRF''"
    using v1 [THEN conjunct1] a by simp
  have f: "isConnectionValid ''UPF'' ''ext-dn''"
    using v2 [THEN conjunct1] e by simp
  have c: "\<not> isl (fst (createConnection 1000 ''conn-1'' ''amf-1'' ''nrf-1'' True lab_world))"
    by (simp add: createConnection_order lab_world_nfs lab_networks lab_types lab_valid)
  have d: "\<not> isl (fst (createConnection 2000 ''conn-2'' ''nrf-1'' ''amf-1'' False lab_world))"
    using v1 [THEN conjunct2, THEN conjunct2] c by simp
  from a b e f u c d show ?thesis by (intro conjI)
qed

text \<open>
  C4. \<open>createConnection\<close> produces a link exactly when both ids are in the data store,
  they differ, the two addresses have the same network (\<open>getNetworkFromIP\<close>, which for
  addresses of at least three dot-separated pieces is the equality of the first three
  pieces), and one of the two types lists the other in the compatibility table. The
  checks run in that order and the first that fails decides the rejection: unknown id,
  self-connection, subnet restriction (naming both networks), invalid connection
  (naming both types), four different messages. A rejection leaves the state as it was,
  so no link is stored; an accepted link is appended to the stored links.
\<close>

theorem createConnection_admission:
  "((\<exists>c. fst (createConnection now cid s t m w) = Inr c) \<longleftrightarrow>
      (\<exists>sn tn. getNFById (dataStore w) s = Some sn \<and> getNFById (dataStore w) t = Some tn \<and>
         s \<noteq> t \<and>
         getNetworkFromIP (cfg_ipAddress (nf_config sn))
           = getNetworkFromIP (cfg_ipAddress (nf_config tn)) \<and>
         ((\<exists>l. validConnections (nf_type sn) = Some l \<and> nf_type tn \<in> set l) \<or>
          (\<exists>l. validConnections (nf_type tn) = Some l \<and> nf_type sn \<in> set l)))) \<and>
   fst (createConnection now cid s t m w) =
     (case getNFById (dataStore w) s of
        None \<Rightarrow> Inl InvalidNFIds
      | Some sn \<Rightarrow>
          (case getNFById (dataStore w) t of
             None \<Rightarrow> Inl InvalidNFIds
           | Some tn \<Rightarrow>
               if s = t then Inl SelfConnection
               else if getNetworkFromIP (cfg_ipAddress (nf_config sn))
                         \<noteq> getNetworkFromIP (cfg_ipAddress (nf_config tn))
               then Inl (SubnetRestriction (getNetworkFromIP (cfg_ipAddress (nf_config sn)))
                           (getNetworkFromIP (cfg_ipAddress (nf_config tn))))
               else if \<not> isConnectionValid (nf_type sn) (nf_type tn)
               then Inl (InvalidConnection (nf_type sn) (nf_type tn))
               else Inr (new_connection now cid s t m w sn tn))) \<and>
   (\<forall>a b c d. distinct [InvalidNFIds, SelfConnection, SubnetRestriction a b,
                              InvalidConnection c d]) \<and>
   (\<forall>e. fst (createConnection now cid s t m w) = Inl e \<longrightarrow>
        snd (createConnection now cid s t m w) = w) \<and>
   (\<forall>c. fst (createConnection now cid s t m w) = Inr c \<longrightarrow>
        connections (dataStore (snd (createConnection now cid s t m w)))
          = connections (dataStore w) @ [c]) \<and>
   (\<forall>a b. 3 \<le> length (split_dot a) \<and> 3 \<le> length (split_dot b) \<longrightarrow>
        (getNetworkFromIP a = getNetworkFromIP b \<longleftrightarrow> first_three_octets a = first_three_octets b))"
proof -
  let ?cc = "createConnection now cid s t m w"
  have rejected: "\<forall>e. fst ?cc = Inl e \<longrightarrow> snd ?cc = w"
    using createConnection_outcome [of now cid s t m w] by auto
  have stored: "\<forall>c. fst ?cc = Inr c \<longrightarrow>
        connections (dataStore (snd ?cc)) = connections (dataStore w) @ [c]"
    using createConnection_outcome [of now cid s t m w] by auto
  have "(\<exists>c. fst ?cc = Inr c) \<longleftrightarrow> \<not> isl (fst ?cc)"
    by (cases "fst ?cc") simp_all
  then have iff: "(\<exists>c. fst ?cc = Inr c) \<longleftrightarrow>
      (\<exists>sn tn. getNFById (dataStore w) s = Some sn \<and> getNFById (dataStore w) t = Some tn \<and>
         s \<noteq> t \<and>
         getNetworkFromIP (cfg_ipAddress (nf_config sn))
           = getNetworkFromIP (cfg_ipAddress (nf_config tn)) \<and>
         ((\<exists>l. validConnections (nf_type sn) = Some l \<and> nf_type tn \<in> set l) \<or>
          (\<exists>l. validConnections (nf_type tn) = Some l \<and> nf_type sn \<in> set l)))"
    by (simp only: createConnection_verdict isConnectionValid_iff not_not)
  have octets: "\<forall>a b. 3 \<le> length (split_dot a) \<and> 3 \<le> length (split_dot b) \<longrightarrow>
        (getNetworkFromIP a = getNetworkFromIP b \<longleftrightarrow> first_three_octets a = first_three_octets b)"
    by (simp add: same_network_iff_octets)
  have reasons: "\<forall>a b c d. distinct [InvalidNFIds, SelfConnection, SubnetRestriction a b,
                              InvalidConnection c d]"
    by simp
  from iff createConnection_order [of now cid s t m w] reasons rejected stored octets
  show ?thesis by (intro conjI)
qed


theorem createConnection_admission_witness:
  "fst (createConnection 1000 ''conn-1'' ''amf-1'' ''nrf-1'' True lab_world) =
     Inr (new_connection 1000 ''conn-1'' ''amf-1'' ''nrf-1'' True lab_world amf_nf nrf_nf) \<and>
   connections (dataStore (snd (createConnection 1000 ''conn-1'' ''amf-1'' ''nrf-1'' True lab_world))) =
     [new_connection 1000 ''conn-1'' ''amf-1'' ''nrf-1'' True lab_world amf_nf nrf_nf] \<and>
   fst (createConnection 1000 ''conn-2'' ''amf-1'' ''smf-1'' True lab_world) =
     Inl (SubnetRestriction ''192.168.1'' ''10.0.0'') \<and>
   snd (createConnection 1000 ''conn-2'' ''amf-1'' ''smf-1'' True lab_world) = lab_world \<and>
   fst (createConnection 1000 ''conn-3'' ''amf-1'' ''amf-1'' True lab_world) = Inl SelfConnection \<and>
   fst (createConnection 1000 ''conn-4'' ''amf-1'' ''upf-1'' True lab_world) = Inl InvalidNFIds \<and>
   3 \<le> length (split_dot ''192.168.1.5'') \<and> 3 \<le> length (split_dot ''192.168.1.2'') \<and>
   getNetworkFromIP ''192.168.1.5'' = getNetworkFromIP ''192.168.1.2'' \<and>
   first_three_octets ''192.168.1.5'' = first_three_octets ''192.168.1.2''"
proof -
  note a1 = createConnection_admission [of 1000 "''conn-1''" "''amf-1''" "''nrf-1''" True lab_world]
  note a2 = createConnection_admission [of 1000 "''conn-2''" "''amf-1''" "''smf-1''" True lab_world]
  note a3 = createConnection_admission [of 1000 "''conn-3''" "''amf-1''" "''amf-1''" True lab_world]
  note a4 = createConnection_admission [of 1000 "''conn-4''" "''amf-1''" "''upf-1''" True lab_world]
  have c1: "fst (createConnection 1000 ''conn-1'' ''amf-1'' ''nrf-1'' True lab_world) =
     Inr (new_connection 1000 ''conn-1'' ''amf-1'' ''nrf-1'' True lab_world amf_nf nrf_nf)"
    using a1 [THEN conjunct2, THEN conjunct1]
    by (simp add: lab_world_nfs lab_networks lab_types lab_valid)
  have s1: "connections (dataStore (snd (createConnection 1000 ''conn-1'' ''amf-1'' ''nrf-1'' True
        lab_world))) =
     [new_connection 1000 ''conn-1'' ''amf-1'' ''nrf-1'' True lab_world amf_nf nrf_nf]"
    using a1 [THEN conjunct2, THEN conjunct2, THEN conjunct2, THEN conjunct2, THEN conjunct1] c1
    by (simp add: lab_world_def)
  have c2: "fst (createConnection 1000 ''conn-2'' ''amf-1'' ''smf-1'' True lab_world) =
     Inl (SubnetRestriction ''192.168.1'' ''10.0.0'')"
    using a2 [THEN conjunct2, THEN conjunct1]
    by (simp add: lab_world_nfs lab_networks lab_types lab_valid)
  have s2: "snd (createConnection 1000 ''conn-2'' ''amf-1'' ''smf-1'' True lab_world) = lab_world"
    using a2 [THEN conjunct2, THEN conjunct2, THEN conjunct2, THEN conjunct1] c2 by simp
  have c3: "fst (createConnection 1000 ''conn-3'' ''amf-1'' ''amf-1'' True lab_world) =
     Inl SelfConnection"
    using a3 [THEN conjunct2, THEN conjunct1] by (simp add: lab_world_nfs)
  have c4: "fst (createConnection 1000 ''conn-4'' ''amf-1'' ''upf-1'' True lab_world) =
     Inl InvalidNFIds"
    using a4 [THEN conjunct2, THEN conjunct1] by (simp add: lab_world_nfs)
  have l: "3 \<le> length (split_dot ''192.168.1.5'') \<and> 3 \<le> length (split_dot ''192.168.1.2'')"
    by simp
  have n: "getNetworkFromIP ''192.168.1.5'' = getNetworkFromIP ''192.168.1.2''"
    by (simp add: getNetworkFromIP_def template_part_def)
  have o: "first_three_octets ''192.168.1.5'' = first_three_octets ''192.168.1.2''"
    using a1 [THEN conjunct2, THEN conjunct2, THEN conjunct2, THEN conjunct2, THEN conjunct2] l n
    by blast
  from c1 s1 c2 s2 c3 c4 l n o show ?thesis by (intro conjI) simp_all
qed

section \<open>The connection manager: links to the registry node\<close>


text \<open>
  The removal callback that \<open>deregisterNF\<close> schedules is not cancelled by a later
  \<open>registerNF\<close>: when it runs after the instance has been registered again, it deletes the
  new profile, and a deletion of the link after that finds nothing to deregister.
\<close>

lemma stale_purge_deletes_new_profile:
  "map_of (registry (run_ops [(2500, Register ''amf-1'' amf_profile_input),
                              (3000, Deregister ''amf-1'' ''NRF_CONNECTION_REMOVED''),
                              (5500, Register ''amf-1'' amf_profile_input),
                              (8000, Purge (8000, ''amf-1''))] new_NRFRegistry)) ''amf-1'' = None"
  by code_simp




end
